theory Spec2Isabelle
  imports Main
begin

section \<open>Python values handled by \<open>tools/clash_cli.py\<close>\<close>

text \<open>
  The program is a command-line client of the REST interface of a Clash daemon. What the
  daemon answers is decoded by \<open>json.loads\<close> and then used without any decoding step,
  so the model keeps those answers as dynamically typed values. A \<open>string\<close> is the
  UTF-8 encoding of a Python \<open>str\<close>; a \<open>dict\<close> is an association list in insertion
  order (keys of a decoded JSON object are always strings). JSON numbers with a fraction
  or an exponent are not modelled: the daemon's contract for the one number the program
  reads, the delay, is an integer.
\<close>

datatype pyval =
    PNone
  | PBool bool
  | PInt int
  | PStr string
  | PList "pyval list"
  | PDict "(string \<times> pyval) list"

text \<open>
  The exceptions the program can raise or let through. \<open>TransportError\<close> stands for
  whatever \<open>urllib.request.urlopen\<close>, \<open>resp.read().decode\<close> or \<open>json.loads\<close> raise
  (connection failure, non-2xx status, time-out, malformed body), with the text that
  \<open>str(exc)\<close> gives. \<open>SystemExit\<close> is the only one that is not an \<open>Exception\<close>.
\<close>

datatype exc =
    TransportError string
  | AttributeError string
  | TypeError string
  | ValueError string
  | SystemExit int

fun exc_str :: "exc \<Rightarrow> string" where
  "exc_str (TransportError m) = m"
| "exc_str (AttributeError m) = m"
| "exc_str (TypeError m) = m"
| "exc_str (ValueError m) = m"
| "exc_str (SystemExit n) = []"

fun is_Exception :: "exc \<Rightarrow> bool" where
  "is_Exception (SystemExit n) = False"
| "is_Exception e = True"

definition bindE :: "exc + 'a \<Rightarrow> ('a \<Rightarrow> exc + 'b) \<Rightarrow> exc + 'b" where
  "bindE m f = (case m of Inl e \<Rightarrow> Inl e | Inr x \<Rightarrow> f x)"

subsection \<open>Dictionaries\<close>

definition dict_get :: "(string \<times> 'v) list \<Rightarrow> string \<Rightarrow> 'v option" where
  "dict_get d k = map_of d k"

definition dict_get_default :: "(string \<times> 'v) list \<Rightarrow> string \<Rightarrow> 'v \<Rightarrow> 'v" where
  "dict_get_default d k dflt = (case map_of d k of None \<Rightarrow> dflt | Some v \<Rightarrow> v)"

text \<open>\<open>d[k] = v\<close>: an existing key keeps its position, a new key goes last.\<close>

fun dict_set :: "(string \<times> 'v) list \<Rightarrow> string \<Rightarrow> 'v \<Rightarrow> (string \<times> 'v) list" where
  "dict_set [] k v = [(k, v)]"
| "dict_set ((k', v') # d) k v = (if k' = k then (k, v) # d else (k', v') # dict_set d k v)"

subsection \<open>Built-in operations on values\<close>

fun type_name :: "pyval \<Rightarrow> string" where
  "type_name PNone = ''NoneType''"
| "type_name (PBool b) = ''bool''"
| "type_name (PInt i) = ''int''"
| "type_name (PStr s) = ''str''"
| "type_name (PList xs) = ''list''"
| "type_name (PDict d) = ''dict''"

text \<open>\<open>obj.get(key, default)\<close>: only a dict has the method.\<close>

definition apos :: string where
  "apos = [CHR 0x27]"

fun py_get :: "pyval \<Rightarrow> string \<Rightarrow> pyval \<Rightarrow> exc + pyval" where
  "py_get (PDict d) k dflt = Inr (dict_get_default d k dflt)"
| "py_get v k dflt =
     Inl (AttributeError (apos @ type_name v @ apos @ '' object has no attribute '' @
       apos @ ''get'' @ apos))"

text \<open>Decimal text of an integer, as \<open>str\<close> and an f-string give it.\<close>

definition digit_char :: "nat \<Rightarrow> char" where
  "digit_char d = ''0123456789'' ! d"

function str_nat :: "nat \<Rightarrow> string" where
  "str_nat n = (if n < 10 then [digit_char n] else str_nat (n div 10) @ [digit_char (n mod 10)])"
  by pat_completeness auto
termination
  by (relation "measure (\<lambda>n. n)") auto

declare str_nat.simps [simp del]

definition str_int :: "int \<Rightarrow> string" where
  "str_int i = (if i < 0 then CHR ''-'' # str_nat (nat (- i)) else str_nat (nat i))"

text \<open>
  The characters of a \<open>str\<close>, as iterating over it gives them: in the UTF-8 encoding a
  character is a lead byte followed by its continuation bytes (\<open>0x80\<close> to \<open>0xBF\<close>).
\<close>

definition is_cont :: "char \<Rightarrow> bool" where
  "is_cont c = (128 \<le> (of_char c :: nat) \<and> (of_char c :: nat) < 192)"

function py_chars :: "string \<Rightarrow> string list" where
  "py_chars [] = []"
| "py_chars (c # cs) = (c # takeWhile is_cont cs) # py_chars (dropWhile is_cont cs)"
  by pat_completeness auto
termination
  by (relation "measure length") (auto simp: less_Suc_eq_le length_dropWhile_le)

text \<open>\<open>iter(v)\<close>, as \<open>list(v)\<close>, \<open>set(v)\<close> and \<open>sep.join(v)\<close> run it.\<close>

fun py_iter :: "pyval \<Rightarrow> exc + pyval list" where
  "py_iter (PList xs) = Inr xs"
| "py_iter (PStr s) = Inr (map PStr (py_chars s))"
| "py_iter (PDict d) = Inr (map (\<lambda>kv. PStr (fst kv)) d)"
| "py_iter v = Inl (TypeError (apos @ type_name v @ apos @ '' object is not iterable''))"

fun hashable :: "pyval \<Rightarrow> bool" where
  "hashable (PList xs) = False"
| "hashable (PDict d) = False"
| "hashable v = True"

fun join :: "string \<Rightarrow> string list \<Rightarrow> string" where
  "join sep [] = []"
| "join sep [x] = x"
| "join sep (x # y # ys) = x @ sep @ join sep (y # ys)"

text \<open>\<open>sep.join\<close> over a sequence: every item has to be a \<open>str\<close>.\<close>

fun strs_of :: "nat \<Rightarrow> pyval list \<Rightarrow> exc + string list" where
  "strs_of i [] = Inr []"
| "strs_of i (PStr s # xs) = bindE (strs_of (Suc i) xs) (\<lambda>ss. Inr (s # ss))"
| "strs_of i (x # xs) =
     Inl (TypeError (''sequence item '' @ str_nat i @ '': expected str instance, '' @
       type_name x @ '' found''))"

definition py_join_seq :: "string \<Rightarrow> pyval list \<Rightarrow> exc + string" where
  "py_join_seq sep xs = bindE (strs_of 0 xs) (\<lambda>ss. Inr (join sep ss))"

definition py_join :: "string \<Rightarrow> pyval \<Rightarrow> exc + string" where
  "py_join sep v =
     (case py_iter v of
        Inl e \<Rightarrow> Inl (TypeError ''can only join an iterable'')
      | Inr xs \<Rightarrow> py_join_seq sep xs)"

text \<open>\<open>urllib.parse.quote(s, safe="")\<close> on the UTF-8 bytes of \<open>s\<close>.\<close>

definition unreserved :: "char \<Rightarrow> bool" where
  "unreserved c =
     (c \<in> set ''ABCDEFGHIJKLMNOPQRSTUVWXYZabcdefghijklmnopqrstuvwxyz0123456789_.-~'')"

definition hex_digit :: "nat \<Rightarrow> char" where
  "hex_digit n = ''0123456789ABCDEF'' ! n"

definition quote :: "string \<Rightarrow> string" where
  "quote s =
     concat (map (\<lambda>c. if unreserved c then [c]
                      else [CHR ''%'', hex_digit (of_char c div 16), hex_digit (of_char c mod 16)]) s)"

fun py_quote :: "pyval \<Rightarrow> exc + string" where
  "py_quote (PStr s) = Inr (quote s)"
| "py_quote v = Inl (TypeError ''quote_from_bytes() expected bytes'')"

definition startswith :: "string \<Rightarrow> string \<Rightarrow> bool" where
  "startswith s p = (take (length p) s = p)"

definition rstrip_slash :: "string \<Rightarrow> string" where
  "rstrip_slash s = rev (dropWhile (\<lambda>c. c = CHR ''/'') (rev s))"

definition lstrip_slash :: "string \<Rightarrow> string" where
  "lstrip_slash s = dropWhile (\<lambda>c. c = CHR ''/'') s"

section \<open>The environment of one run\<close>

text \<open>
  What the program takes from outside its own source: the process environment, the
  expansion of \<open>~\<close> in a path, library renderings that are not modelled (\<open>repr\<close> of a
  list or dict, \<open>json.dumps(v, ensure_ascii=False, indent=2)\<close>), the order in which a
  \<open>set\<close> built from a sequence is iterated (it follows the hashes of the elements, which
  are salted per process for strings), and the network: \<open>urlopen\<close> answers a request
  with an exception text, with an empty body (\<open>None\<close>) or with the decoded JSON body,
  and may change the daemon.
\<close>

datatype http_method = GET | PUT

record http_request =
  req_method :: http_method
  req_base :: string
  req_path :: string
  req_query :: "(string \<times> string) list"
  req_headers :: "(string \<times> string) list"
  req_payload :: "pyval option"
  req_timeout :: int

record 'n env =
  getenv :: "string \<Rightarrow> string option"
  expanduser :: "string \<Rightarrow> string"
  repr_container :: "pyval \<Rightarrow> string"
  json_dumps :: "pyval \<Rightarrow> string"
  set_iter :: "pyval list \<Rightarrow> pyval list"
  urlopen :: "'n \<Rightarrow> http_request \<Rightarrow> (string + pyval option) \<times> 'n"

text \<open>\<open>str(v)\<close>, which an f-string applies to a value it interpolates.\<close>

fun py_str :: "'n env \<Rightarrow> pyval \<Rightarrow> string" where
  "py_str env PNone = ''None''"
| "py_str env (PBool b) = (if b then ''True'' else ''False'')"
| "py_str env (PInt i) = str_int i"
| "py_str env (PStr s) = s"
| "py_str env v = repr_container env v"

text \<open>
  The configuration file holds what \<open>json.load\<close> makes of it: an exception, or the
  \<open>Dict[str, str]\<close> that \<open>load_config\<close> declares. Writing is taken to succeed
  (directories and permissions are not modelled).
\<close>

datatype fcontent = Unreadable string | Doc "(string \<times> string) list"

datatype event = Sent http_request | Stdout string | Stderr string | Help

record 'n state =
  net :: 'n
  fs :: "string \<Rightarrow> fcontent option"
  trace :: "event list"

definition emit :: "event \<Rightarrow> 'n state \<Rightarrow> 'n state" where
  "emit e st = st\<lparr>trace := trace st @ [e]\<rparr>"

section \<open>The module-level defaults (lines 21 to 22)\<close>

definition DEFAULT_HOST :: "'n env \<Rightarrow> string" where
  "DEFAULT_HOST env =
     (case getenv env ''CLASH_API_HOST'' of None \<Rightarrow> ''127.0.0.1:9090'' | Some v \<Rightarrow> v)"

definition DEFAULT_SECRET :: "'n env \<Rightarrow> string option" where
  "DEFAULT_SECRET env = getenv env ''CLASH_API_SECRET''"

section \<open>\<open>ClashClient\<close>\<close>

record client =
  base :: string
  secret :: "string option"
  timeout :: int

definition ClashClient :: "string \<Rightarrow> string option \<Rightarrow> client" where
  "ClashClient host sec =
     \<lparr>base = (if startswith host ''http://'' \<or> startswith host ''https://''
              then rstrip_slash host else rstrip_slash (''http://'' @ host)),
      secret = sec,
      timeout = 10\<rparr>"

text \<open>
  The request that \<open>_request\<close> hands to \<open>urlopen\<close>. The URL is kept as its parts (base,
  path without leading slashes, query); joining and encoding them is the library's work.
\<close>

definition build_request ::
  "client \<Rightarrow> http_method \<Rightarrow> string \<Rightarrow> pyval option \<Rightarrow> (string \<times> string) list \<Rightarrow> http_request" where
  "build_request c m p data query =
     \<lparr>req_method = m,
      req_base = base c,
      req_path = lstrip_slash p,
      req_query = query,
      req_headers = (''Content-Type'', ''application/json'') #
        (case secret c of
           None \<Rightarrow> []
         | Some s \<Rightarrow> if s = [] then [] else [(''Authorization'', ''Bearer '' @ s)]),
      req_payload = data,
      req_timeout = timeout c\<rparr>"

definition request ::
  "'n env \<Rightarrow> client \<Rightarrow> http_method \<Rightarrow> string \<Rightarrow> pyval option \<Rightarrow> (string \<times> string) list \<Rightarrow>
     'n state \<Rightarrow> (exc + pyval) \<times> 'n state" where
  "request env c m p data query st =
     (let req = build_request c m p data query;
          (r, n') = urlopen env (net st) req;
          st' = emit (Sent req) (st\<lparr>net := n'\<rparr>)
      in case r of
           Inl msg \<Rightarrow> (Inl (TransportError msg), st')
         | Inr None \<Rightarrow> (Inr (PDict []), st')
         | Inr (Some v) \<Rightarrow> (Inr v, st'))"

definition proxies :: "'n env \<Rightarrow> client \<Rightarrow> 'n state \<Rightarrow> (exc + pyval) \<times> 'n state" where
  "proxies env c st =
     (case request env c GET ''/proxies'' None [] st of
        (Inl e, st') \<Rightarrow> (Inl e, st')
      | (Inr r, st') \<Rightarrow> (py_get r ''proxies'' (PDict []), st'))"

definition proxy :: "'n env \<Rightarrow> client \<Rightarrow> string \<Rightarrow> 'n state \<Rightarrow> (exc + pyval) \<times> 'n state" where
  "proxy env c name st = request env c GET (''/proxies/'' @ quote name) None [] st"

definition switch ::
  "'n env \<Rightarrow> client \<Rightarrow> string \<Rightarrow> string \<Rightarrow> 'n state \<Rightarrow> (exc + pyval) \<times> 'n state" where
  "switch env c grp node st =
     request env c PUT (''/proxies/'' @ quote grp) (Some (PDict [(''name'', PStr node)])) [] st"

definition delay ::
  "'n env \<Rightarrow> client \<Rightarrow> pyval \<Rightarrow> string \<Rightarrow> int \<Rightarrow> 'n state \<Rightarrow> (exc + pyval) \<times> 'n state" where
  "delay env c name test_url timeout_ms st =
     (case py_quote name of
        Inl e \<Rightarrow> (Inl e, st)
      | Inr encoded \<Rightarrow>
          request env c GET (''/proxies/'' @ encoded @ ''/delay'') None
            [(''timeout'', str_int timeout_ms), (''url'', test_url)] st)"

section \<open>Groups and nodes\<close>

definition group_types :: "string list" where
  "group_types = [''Selector'', ''URLTest'', ''Fallback'', ''LoadBalance'']"

text \<open>\<open>v in {"Selector", ...}\<close>: the value is hashed first, then compared.\<close>

fun in_group_types :: "pyval \<Rightarrow> exc + bool" where
  "in_group_types (PStr s) = Inr (s \<in> set group_types)"
| "in_group_types v =
     (if hashable v then Inr False
      else Inl (TypeError (''unhashable type: '' @ apos @ type_name v @ apos)))"

definition is_selector :: "pyval \<Rightarrow> exc + bool" where
  "is_selector proxy_info = bindE (py_get proxy_info ''type'' PNone) in_group_types"

fun py_items :: "pyval \<Rightarrow> exc + (string \<times> pyval) list" where
  "py_items (PDict d) = Inr d"
| "py_items v =
     Inl (AttributeError (apos @ type_name v @ apos @ '' object has no attribute '' @
       apos @ ''items'' @ apos))"

definition group_line :: "'n env \<Rightarrow> string \<Rightarrow> pyval \<Rightarrow> exc + string" where
  "group_line env name info =
     bindE (py_get info ''now'' PNone) (\<lambda>now.
     bindE (py_get info ''all'' (PList [])) (\<lambda>al.
     bindE (py_join '', '' al) (\<lambda>members.
     bindE (py_get info ''type'' (PStr ''?'')) (\<lambda>ty.
       Inr (name @ '' ['' @ py_str env ty @ '']: now='' @ py_str env now @
            ''; members='' @ members)))))"

definition node_line :: "'n env \<Rightarrow> string \<Rightarrow> pyval \<Rightarrow> exc + string" where
  "node_line env name info =
     bindE (py_get info ''type'' (PStr ''?'')) (\<lambda>ty.
     bindE (py_get info ''udp'' PNone) (\<lambda>udp.
       Inr (name @ '' ['' @ py_str env ty @ ''], udp='' @ py_str env udp)))"

text \<open>The two loops of \<open>list_proxies\<close> over \<open>proxies.items()\<close>; a line is printed as soon
  as its entry is reached, so an exception leaves the earlier lines on the output.\<close>

fun print_groups :: "'n env \<Rightarrow> (string \<times> pyval) list \<Rightarrow> 'n state \<Rightarrow> (exc + unit) \<times> 'n state" where
  "print_groups env [] st = (Inr (), st)"
| "print_groups env ((name, info) # rest) st =
     (case is_selector info of
        Inl e \<Rightarrow> (Inl e, st)
      | Inr False \<Rightarrow> print_groups env rest st
      | Inr True \<Rightarrow>
          (case group_line env name info of
             Inl e \<Rightarrow> (Inl e, st)
           | Inr l \<Rightarrow> print_groups env rest (emit (Stdout l) st)))"

fun print_nodes :: "'n env \<Rightarrow> (string \<times> pyval) list \<Rightarrow> 'n state \<Rightarrow> (exc + unit) \<times> 'n state" where
  "print_nodes env [] st = (Inr (), st)"
| "print_nodes env ((name, info) # rest) st =
     (case is_selector info of
        Inl e \<Rightarrow> (Inl e, st)
      | Inr True \<Rightarrow> print_nodes env rest st
      | Inr False \<Rightarrow>
          (case node_line env name info of
             Inl e \<Rightarrow> (Inl e, st)
           | Inr l \<Rightarrow> print_nodes env rest (emit (Stdout l) st)))"

definition list_proxies ::
  "'n env \<Rightarrow> client \<Rightarrow> bool \<Rightarrow> bool \<Rightarrow> 'n state \<Rightarrow> (exc + unit) \<times> 'n state" where
  "list_proxies env c show_groups show_nodes st =
     (case proxies env c st of
        (Inl e, st1) \<Rightarrow> (Inl e, st1)
      | (Inr ps, st1) \<Rightarrow>
          (case (if show_groups
                 then (let st2 = emit (Stdout ''=== Policy Groups ==='') st1
                       in case py_items ps of
                            Inl e \<Rightarrow> (Inl e, st2)
                          | Inr items \<Rightarrow> print_groups env items st2)
                 else (Inr (), st1)) of
             (Inl e, st3) \<Rightarrow> (Inl e, st3)
           | (Inr u, st3) \<Rightarrow>
               (if show_nodes
                then (let st4 = emit (Stdout ''=== Endpoint Nodes ==='') st3
                      in case py_items ps of
                           Inl e \<Rightarrow> (Inl e, st4)
                         | Inr items \<Rightarrow> print_nodes env items st4)
                else (Inr (), st3))))"

text \<open>
  The texts of the program's messages are Chinese; each \<open>msg_\<close> constant is the UTF-8
  encoding of the literal of the source, with the apostrophes that surround an
  interpolated name. This one is the tail of the \<open>ValueError\<close> of line 101.
\<close>

definition msg_not_group :: string where
  "msg_not_group =
     [CHR 0x27] @ '' '' @ [CHR 0xE4, CHR 0xB8, CHR 0x8D, CHR 0xE6, CHR 0x98, CHR 0xAF,
       CHR 0xE7, CHR 0xAD, CHR 0x96, CHR 0xE7, CHR 0x95, CHR 0xA5, CHR 0xE7, CHR 0xBB,
       CHR 0x84, CHR 0xEF, CHR 0xBC, CHR 0x88] @ ''Selector/URLTest '' @ [CHR 0xE7,
       CHR 0xAD, CHR 0x89, CHR 0xEF, CHR 0xBC, CHR 0x89, CHR 0xE3, CHR 0x80, CHR 0x82]"

definition nodes_from_group ::
  "'n env \<Rightarrow> client \<Rightarrow> string \<Rightarrow> 'n state \<Rightarrow> (exc + pyval) \<times> 'n state" where
  "nodes_from_group env c grp st =
     (case proxy env c grp st of
        (Inl e, st') \<Rightarrow> (Inl e, st')
      | (Inr info, st') \<Rightarrow>
          (case is_selector info of
             Inl e \<Rightarrow> (Inl e, st')
           | Inr False \<Rightarrow> (Inl (ValueError (apos @ grp @ msg_not_group)), st')
           | Inr True \<Rightarrow> (py_get info ''all'' (PList []), st')))"

section \<open>Delay probes\<close>

text \<open>\<open>delay is None or delay < 0\<close>; a \<open>bool\<close> compares as 0 or 1.\<close>

fun none_or_negative :: "pyval \<Rightarrow> exc + bool" where
  "none_or_negative PNone = Inr True"
| "none_or_negative (PInt i) = Inr (i < 0)"
| "none_or_negative (PBool b) = Inr False"
| "none_or_negative v =
     Inl (TypeError (apos @ ''<'' @ apos @ '' not supported between instances of '' @
       apos @ type_name v @ apos @ '' and '' @ apos @ ''int'' @ apos))"

text \<open>The body of the \<open>try\<close> in \<open>test_delays\<close>, for one target.\<close>

definition probe ::
  "'n env \<Rightarrow> client \<Rightarrow> pyval \<Rightarrow> string \<Rightarrow> int \<Rightarrow> 'n state \<Rightarrow> (exc + unit) \<times> 'n state" where
  "probe env c name url tmo st =
     (case delay env c name url tmo st of
        (Inl e, st') \<Rightarrow> (Inl e, st')
      | (Inr result, st') \<Rightarrow>
          (case py_get result ''delay'' PNone of
             Inl e \<Rightarrow> (Inl e, st')
           | Inr d \<Rightarrow>
               (case none_or_negative d of
                  Inl e \<Rightarrow> (Inl e, st')
                | Inr True \<Rightarrow>
                    (Inr (), emit (Stdout (py_str env name @ '': timeout/no response'')) st')
                | Inr False \<Rightarrow>
                    (Inr (), emit (Stdout (py_str env name @ '': '' @ py_str env d @ '' ms'')) st'))))"

fun test_delays ::
  "'n env \<Rightarrow> client \<Rightarrow> pyval list \<Rightarrow> string \<Rightarrow> int \<Rightarrow> 'n state \<Rightarrow> (exc + unit) \<times> 'n state" where
  "test_delays env c [] url tmo st = (Inr (), st)"
| "test_delays env c (name # targets) url tmo st =
     (case probe env c name url tmo st of
        (Inr u, st') \<Rightarrow> test_delays env c targets url tmo st'
      | (Inl e, st') \<Rightarrow>
          (if is_Exception e
           then test_delays env c targets url tmo
                  (emit (Stderr (py_str env name @ '': request failed ('' @ exc_str e @ '')'')) st')
           else (Inl e, st')))"

section \<open>The configuration file\<close>

definition msg_load_failed :: string where
  "msg_load_failed =
     [CHR 0xE8, CHR 0xAF, CHR 0xBB, CHR 0xE5, CHR 0x8F, CHR 0x96, CHR 0xE9, CHR 0x85,
       CHR 0x8D, CHR 0xE7, CHR 0xBD, CHR 0xAE, CHR 0xE6, CHR 0x96, CHR 0x87, CHR 0xE4,
       CHR 0xBB, CHR 0xB6, CHR 0xE5, CHR 0xA4, CHR 0xB1, CHR 0xE8, CHR 0xB4, CHR 0xA5,
       CHR 0xEF, CHR 0xBC, CHR 0x9A]"

definition msg_saved :: string where
  "msg_saved =
     [CHR 0xE5, CHR 0xB7, CHR 0xB2, CHR 0xE4, CHR 0xBF, CHR 0x9D, CHR 0xE5, CHR 0xAD,
       CHR 0x98, CHR 0xE9, CHR 0x85, CHR 0x8D, CHR 0xE7, CHR 0xBD, CHR 0xAE, CHR 0xE5,
       CHR 0x88, CHR 0xB0] @ '' ''"

definition load_config :: "string \<Rightarrow> 'n state \<Rightarrow> (string \<times> string) list \<times> 'n state" where
  "load_config path st =
     (case fs st path of
        None \<Rightarrow> ([], st)
      | Some (Unreadable m) \<Rightarrow> ([], emit (Stderr (msg_load_failed @ m)) st)
      | Some (Doc d) \<Rightarrow> (d, st))"

definition save_config :: "string \<Rightarrow> (string \<times> string) list \<Rightarrow> 'n state \<Rightarrow> 'n state" where
  "save_config path data st =
     emit (Stdout (msg_saved @ path)) (st\<lparr>fs := (fs st)(path \<mapsto> Doc data)\<rparr>)"

section \<open>\<open>main\<close>\<close>

text \<open>
  The namespace that \<open>parse_args\<close> returns. The options \<open>--host\<close> and \<open>--secret\<close> of the
  parser and of its \<open>config\<close> sub-command fill the same two attributes. \<open>--node\<close> is
  \<open>None\<close> or the list of the names given; \<open>--timeout\<close> is an \<open>int\<close>.
\<close>

datatype command =
    CmdList bool bool
  | CmdPing "string option" "string list option" string int
  | CmdSwitch string string bool
  | CmdConfig bool

record args =
  arg_host :: "string option"
  arg_secret :: "string option"
  arg_config :: string
  arg_command :: "command option"

text \<open>Lines 196 and 197: the host and the secret that the client is built from.\<close>

definition resolve_host :: "'n env \<Rightarrow> args \<Rightarrow> (string \<times> string) list \<Rightarrow> string" where
  "resolve_host env a stored =
     (if arg_host a \<noteq> None then the (arg_host a)
      else dict_get_default stored ''host'' (DEFAULT_HOST env))"

definition resolve_secret :: "'n env \<Rightarrow> args \<Rightarrow> (string \<times> string) list \<Rightarrow> string option" where
  "resolve_secret env a stored =
     (if arg_secret a \<noteq> None then arg_secret a
      else (case dict_get stored ''secret'' of None \<Rightarrow> DEFAULT_SECRET env | Some v \<Rightarrow> Some v))"

text \<open>\<open>secret_val or '(empty)'\<close>.\<close>

definition or_empty :: "string option \<Rightarrow> string" where
  "or_empty v = (case v of None \<Rightarrow> ''(empty)'' | Some s \<Rightarrow> if s = [] then ''(empty)'' else s)"

text \<open>Lines 177 to 193, the \<open>config\<close> sub-command.\<close>

definition cmd_config ::
  "'n env \<Rightarrow> args \<Rightarrow> bool \<Rightarrow> string \<Rightarrow> (string \<times> string) list \<Rightarrow> 'n state \<Rightarrow>
     (exc + unit) \<times> 'n state" where
  "cmd_config env a sh config_path stored st =
     (let updated1 = (case arg_host a of None \<Rightarrow> stored | Some h \<Rightarrow> dict_set stored ''host'' h);
          updated = (case arg_secret a of None \<Rightarrow> updated1 | Some s \<Rightarrow> dict_set updated1 ''secret'' s);
          changed = (arg_host a \<noteq> None \<or> arg_secret a \<noteq> None);
          st1 = (if changed then save_config config_path updated st else st)
      in if sh \<or> \<not> changed
         then (let host_val = dict_get_default updated ''host'' (DEFAULT_HOST env);
                   secret_val = (case dict_get updated ''secret'' of
                                   None \<Rightarrow> DEFAULT_SECRET env | Some v \<Rightarrow> Some v)
               in (Inr (), emit (Stdout (''secret: '' @ or_empty secret_val))
                             (emit (Stdout (''host: '' @ host_val)) st1)))
         else (Inr (), st1))"

definition msg_need_targets :: string where
  "msg_need_targets =
     [CHR 0xE8, CHR 0xAF, CHR 0xB7, CHR 0xE9, CHR 0x80, CHR 0x9A, CHR 0xE8, CHR 0xBF,
       CHR 0x87] @ '' --group '' @ [CHR 0xE6, CHR 0x88, CHR 0x96] @ '' --node '' @
       [CHR 0xE6, CHR 0x8C, CHR 0x87, CHR 0xE5, CHR 0xAE, CHR 0x9A, CHR 0xE9, CHR 0x9C,
       CHR 0x80, CHR 0xE8, CHR 0xA6, CHR 0x81, CHR 0xE6, CHR 0xB5, CHR 0x8B, CHR 0xE9,
       CHR 0x80, CHR 0x9F, CHR 0xE7, CHR 0x9A, CHR 0x84, CHR 0xE8, CHR 0x8A, CHR 0x82,
       CHR 0xE7, CHR 0x82, CHR 0xB9, CHR 0xE3, CHR 0x80, CHR 0x82]"

text \<open>Lines 206 to 216, the \<open>ping\<close> sub-command.\<close>

definition cmd_ping ::
  "'n env \<Rightarrow> client \<Rightarrow> string option \<Rightarrow> string list option \<Rightarrow> string \<Rightarrow> int \<Rightarrow> 'n state \<Rightarrow>
     (exc + unit) \<times> 'n state" where
  "cmd_ping env c grp node url tmo st =
     (if grp \<noteq> None \<and> grp \<noteq> Some []
      then (case nodes_from_group env c (the grp) st of
              (Inl e, st1) \<Rightarrow> (Inl e, st1)
            | (Inr v, st1) \<Rightarrow>
                (case py_iter v of
                   Inl e \<Rightarrow> (Inl e, st1)
                 | Inr nodes \<Rightarrow>
                     test_delays env c nodes url tmo
                       (emit (Stdout (''Testing group '' @ apos @ the grp @ apos @ '' ('' @
                          str_nat (length nodes) @ '' nodes)'')) st1)))
      else if node = None \<or> node = Some []
           then (Inl (SystemExit 1), emit (Stderr msg_need_targets) st)
           else test_delays env c (map PStr (the node)) url tmo st)"

definition msg_node :: string where
  "msg_node =
     [CHR 0xE8, CHR 0x8A, CHR 0x82, CHR 0xE7, CHR 0x82, CHR 0xB9] @ '' '' @ [CHR 0x27]"

definition msg_not_in_group :: string where
  "msg_not_in_group =
     [CHR 0x27] @ '' '' @ [CHR 0xE4, CHR 0xB8, CHR 0x8D, CHR 0xE5, CHR 0x9C, CHR 0xA8,
       CHR 0xE7, CHR 0xAD, CHR 0x96, CHR 0xE7, CHR 0x95, CHR 0xA5, CHR 0xE7, CHR 0xBB,
       CHR 0x84] @ '' '' @ [CHR 0x27]"

definition msg_members :: string where
  "msg_members =
     [CHR 0x27] @ '' '' @ [CHR 0xE4, CHR 0xB8, CHR 0xAD, CHR 0xE3, CHR 0x80, CHR 0x82,
       CHR 0xE6, CHR 0x88, CHR 0x90, CHR 0xE5, CHR 0x91, CHR 0x98, CHR 0xEF, CHR 0xBC,
       CHR 0x9A]"

text \<open>
  \<open>set(v)\<close>: every element is hashed. The set is kept as the sequence it was built from;
  membership is membership in that sequence, and iterating it gives \<open>set_iter env\<close> of it.
\<close>

definition py_set :: "pyval \<Rightarrow> exc + pyval list" where
  "py_set v =
     bindE (py_iter v) (\<lambda>xs.
       case find (\<lambda>x. \<not> hashable x) xs of
         Some u \<Rightarrow> Inl (TypeError (''unhashable type: '' @ apos @ type_name u @ apos))
       | None \<Rightarrow> Inr xs)"

definition do_switch ::
  "'n env \<Rightarrow> client \<Rightarrow> string \<Rightarrow> string \<Rightarrow> 'n state \<Rightarrow> (exc + unit) \<times> 'n state" where
  "do_switch env c grp node st =
     (case switch env c grp node st of
        (Inl e, st') \<Rightarrow> (Inl e, st')
      | (Inr result, st') \<Rightarrow> (Inr (), emit (Stdout (json_dumps env result)) st'))"

text \<open>Lines 218 to 226, the \<open>switch\<close> sub-command.\<close>

definition cmd_switch ::
  "'n env \<Rightarrow> client \<Rightarrow> string \<Rightarrow> string \<Rightarrow> bool \<Rightarrow> 'n state \<Rightarrow> (exc + unit) \<times> 'n state" where
  "cmd_switch env c grp node validate st =
     (if validate
      then (case nodes_from_group env c grp st of
              (Inl e, st1) \<Rightarrow> (Inl e, st1)
            | (Inr v, st1) \<Rightarrow>
                (case py_set v of
                   Inl e \<Rightarrow> (Inl e, st1)
                 | Inr members \<Rightarrow>
                     (if PStr node \<notin> set members
                      then (case py_join_seq '', '' (set_iter env members) of
                              Inl e \<Rightarrow> (Inl e, st1)
                            | Inr listed \<Rightarrow>
                                (Inl (SystemExit 1),
                                 emit (Stdout (msg_node @ node @ msg_not_in_group @ grp @
                                   msg_members @ listed)) st1))
                      else do_switch env c grp node st1)))
      else do_switch env c grp node st)"

text \<open>
  The dispatch of \<open>main\<close>. The parser admits the four sub-commands only, so the last
  line of the source (\<open>raise RuntimeError\<close>) is never reached and has no branch here.
\<close>

definition main :: "'n env \<Rightarrow> args \<Rightarrow> 'n state \<Rightarrow> (exc + unit) \<times> 'n state" where
  "main env a st =
     (case arg_command a of
        None \<Rightarrow> (Inl (SystemExit 1), emit Help st)
      | Some cmd \<Rightarrow>
          (let config_path = expanduser env (arg_config a);
               (stored, st1) = load_config config_path st
           in case cmd of
                CmdConfig sh \<Rightarrow> cmd_config env a sh config_path stored st1
              | CmdList groups nodes \<Rightarrow>
                  list_proxies env
                    (ClashClient (resolve_host env a stored) (resolve_secret env a stored))
                    (groups \<or> \<not> nodes) (nodes \<or> \<not> groups) st1
              | CmdPing grp node url tmo \<Rightarrow>
                  cmd_ping env
                    (ClashClient (resolve_host env a stored) (resolve_secret env a stored))
                    grp node url tmo st1
              | CmdSwitch grp node validate \<Rightarrow>
                  cmd_switch env
                    (ClashClient (resolve_host env a stored) (resolve_secret env a stored))
                    grp node validate st1))"

section \<open>Observations on a run\<close>

text \<open>The requests of a trace, in the order they were sent.\<close>

fun sent :: "event list \<Rightarrow> http_request list" where
  "sent [] = []"
| "sent (Sent r # es) = r # sent es"
| "sent (e # es) = sent es"

text \<open>The request that \<open>client.delay\<close> makes for the target \<open>n\<close>.\<close>

definition delay_request :: "client \<Rightarrow> string \<Rightarrow> int \<Rightarrow> string \<Rightarrow> http_request" where
  "delay_request c url tmo n =
     build_request c GET (''/proxies/'' @ quote n @ ''/delay'') None
       [(''timeout'', str_int tmo), (''url'', url)]"

text \<open>The requests that \<open>client.proxies\<close>, \<open>client.proxy\<close> and \<open>client.switch\<close> make.\<close>

definition proxies_request :: "client \<Rightarrow> http_request" where
  "proxies_request c = build_request c GET ''/proxies'' None []"

definition proxy_request :: "client \<Rightarrow> string \<Rightarrow> http_request" where
  "proxy_request c g = build_request c GET (''/proxies/'' @ quote g) None []"

definition switch_request :: "client \<Rightarrow> string \<Rightarrow> string \<Rightarrow> http_request" where
  "switch_request c g n =
     build_request c PUT (''/proxies/'' @ quote g) (Some (PDict [(''name'', PStr n)])) []"

text \<open>
  What a \<open>set\<close> of strings guarantees about its iteration: every element once, in some
  order.
\<close>

definition set_iter_ok :: "'n env \<Rightarrow> bool" where
  "set_iter_ok env =
     (\<forall>ss. distinct (set_iter env (map PStr ss)) \<and>
           set (set_iter env (map PStr ss)) = set (map PStr ss))"

section \<open>Example runs\<close>

text \<open>
  Concrete environments for the instances below: a daemon without state that answers a
  request by a fixed function of it, a file system without files, and a client for the
  default host.
\<close>

definition ex_env ::
  "(string \<Rightarrow> string option) \<Rightarrow> (pyval list \<Rightarrow> pyval list) \<Rightarrow>
     (http_request \<Rightarrow> string + pyval option) \<Rightarrow> unit env" where
  "ex_env vars order answer =
     \<lparr>getenv = vars, expanduser = (\<lambda>p. p), repr_container = (\<lambda>v. ''...''),
      json_dumps = (\<lambda>v. ''...''), set_iter = order, urlopen = (\<lambda>n r. (answer r, n))\<rparr>"

definition ex_state :: "unit state" where
  "ex_state = \<lparr>net = (), fs = Map.empty, trace = []\<rparr>"

definition ex_client :: client where
  "ex_client = ClashClient ''127.0.0.1:9090'' None"

definition ex_ping_answer :: "http_request \<Rightarrow> string + pyval option" where
  "ex_ping_answer r =
     (if req_path r = ''proxies/n2/delay'' then Inl ''timed out''
      else if req_path r = ''proxies/n3/delay'' then Inr (Some (PDict [(''delay'', PInt (- 1))]))
      else Inr (Some (PDict [(''delay'', PInt 42)])))"

definition ex_url :: string where
  "ex_url = ''https://www.gstatic.com/generate_204''"

definition ex_vars :: "string \<Rightarrow> string option" where
  "ex_vars = Map.empty(''CLASH_API_HOST'' \<mapsto> ''10.0.0.1:9999'')"

definition ex_args :: "string option \<Rightarrow> string option \<Rightarrow> command \<Rightarrow> args" where
  "ex_args h s cmd =
     \<lparr>arg_host = h, arg_secret = s, arg_config = ''clash_cli.json'', arg_command = Some cmd\<rparr>"

definition ex_proxies_answer :: "http_request \<Rightarrow> string + pyval option" where
  "ex_proxies_answer r = Inr (Some (PDict [(''proxies'', PDict [])]))"

definition ex_stored_state :: "unit state" where
  "ex_stored_state =
     \<lparr>net = (),
      fs = Map.empty(''clash_cli.json'' \<mapsto> Doc [(''secret'', ''s3cr3t''), (''theme'', ''dark'')]),
      trace = []\<rparr>"

text \<open>
  A daemon with one group \<open>Proxy\<close> of the nodes \<open>a\<close> and \<open>b\<close>: \<open>ex_items\<close> is its
  snapshot for \<open>/proxies\<close>. Any other name is answered with status 404, which
  \<open>urlopen\<close> raises.
\<close>

definition ex_group :: pyval where
  "ex_group = PDict [(''type'', PStr ''Selector''), (''now'', PStr ''a''),
     (''all'', PList [PStr ''a'', PStr ''b''])]"

definition ex_node :: pyval where
  "ex_node = PDict [(''type'', PStr ''Shadowsocks''), (''udp'', PBool True)]"

definition ex_items :: "(string \<times> pyval) list" where
  "ex_items = [(''Proxy'', ex_group), (''a'', ex_node), (''b'', ex_node)]"

definition ex_daemon :: "http_request \<Rightarrow> string + pyval option" where
  "ex_daemon r =
     (if req_method r = PUT then Inr None
      else if req_path r = ''proxies''
      then Inr (Some (PDict [(''proxies'', PDict ex_items)]))
      else if req_path r = ''proxies/Proxy'' then Inr (Some ex_group)
      else if req_path r = ''proxies/a'' \<or> req_path r = ''proxies/b'' then Inr (Some ex_node)
      else Inl ''HTTP Error 404: Not Found'')"


text \<open>Another iteration order of a set: the reverse of the order of insertion.\<close>

definition ex_rev_order :: "pyval list \<Rightarrow> pyval list" where
  "ex_rev_order xs = rev (remdups xs)"

section \<open>Properties\<close>

lemmas ex_defs = ex_env_def ex_state_def ex_client_def ClashClient_def startswith_def
  rstrip_slash_def lstrip_slash_def ex_ping_answer_def quote_def unreserved_def hex_digit_def
  delay_request_def build_request_def

subsection \<open>Configuration precedence\<close>

text \<open>
  Claim C1. For the host and for the secret, each resolved on its own, the value the
  client is built from is the flag when it is given, else the stored value when the
  store has the key, else the environment variable when it is set, else the built-in
  default (\<open>127.0.0.1:9090\<close> for the host, none for the secret). The nested case
  distinction covers the eight combinations of presence.
\<close>

theorem config_precedence:
  "resolve_host env a stored =
     (case arg_host a of
        Some A \<Rightarrow> A
      | None \<Rightarrow>
          (case dict_get stored ''host'' of
             Some B \<Rightarrow> B
           | None \<Rightarrow>
               (case getenv env ''CLASH_API_HOST'' of
                  Some C \<Rightarrow> C
                | None \<Rightarrow> ''127.0.0.1:9090'')))
   \<and> resolve_secret env a stored =
     (case arg_secret a of
        Some A \<Rightarrow> Some A
      | None \<Rightarrow>
          (case dict_get stored ''secret'' of
             Some B \<Rightarrow> Some B
           | None \<Rightarrow>
               (case getenv env ''CLASH_API_SECRET'' of
                  Some C \<Rightarrow> Some C
                | None \<Rightarrow> None)))"
  by (simp add: resolve_host_def resolve_secret_def dict_get_def dict_get_default_def
      DEFAULT_HOST_def DEFAULT_SECRET_def split: option.splits)

subsection \<open>The probe loop\<close>

lemma sent_append: "sent (xs @ ys) = sent xs @ sent ys"
  by (induction xs rule: sent.induct) auto

lemma py_get_Exception: "py_get v k d = Inl e \<Longrightarrow> is_Exception e"
  by (cases v) auto

lemma none_or_negative_Exception: "none_or_negative v = Inl e \<Longrightarrow> is_Exception e"
  by (cases v) auto

lemma py_quote_Exception: "py_quote v = Inl e \<Longrightarrow> is_Exception e"
  by (cases v) auto

lemma request_Exception: "request env c m p data q st = (Inl e, st') \<Longrightarrow> is_Exception e"
  by (auto simp: request_def Let_def split: prod.splits sum.splits option.splits)

lemma delay_Exception: "delay env c name url tmo st = (Inl e, st') \<Longrightarrow> is_Exception e"
  by (auto simp: delay_def split: sum.splits dest: py_quote_Exception request_Exception)

lemma probe_Exception: "probe env c name url tmo st = (Inl e, st') \<Longrightarrow> is_Exception e"
  by (auto simp: probe_def split: prod.splits sum.splits bool.splits
      dest: delay_Exception py_get_Exception none_or_negative_Exception)

lemma test_delays_returns: "fst (test_delays env c targets url tmo st) = Inr ()"
proof (induction targets arbitrary: st)
  case Nil
  show ?case by simp
next
  case (Cons name targets)
  show ?case
  proof (cases "probe env c name url tmo st")
    case (Pair r st')
    show ?thesis
    proof (cases r)
      case (Inl e)
      with Pair have "is_Exception e" by (auto dest: probe_Exception)
      with Pair Inl Cons.IH show ?thesis by simp
    next
      case (Inr u)
      with Pair Cons.IH show ?thesis by simp
    qed
  qed
qed

lemma test_delays_append:
  "test_delays env c (xs @ ys) url tmo st =
     test_delays env c ys url tmo (snd (test_delays env c xs url tmo st))"
proof (induction xs arbitrary: st)
  case Nil
  show ?case by simp
next
  case (Cons name xs)
  show ?case
  proof (cases "probe env c name url tmo st")
    case (Pair r st')
    show ?thesis
    proof (cases r)
      case (Inl e)
      with Pair have "is_Exception e" by (auto dest: probe_Exception)
      with Pair Inl Cons.IH show ?thesis by simp
    next
      case (Inr u)
      with Pair Cons.IH show ?thesis by simp
    qed
  qed
qed

lemma probe_transport_failure:
  assumes "urlopen env (net st) (delay_request c url tmo n) = (Inl msg, w)"
  shows "probe env c (PStr n) url tmo st =
           (Inl (TransportError msg), emit (Sent (delay_request c url tmo n)) (st\<lparr>net := w\<rparr>))"
  using assms by (simp add: probe_def delay_def request_def delay_request_def Let_def)

lemma probe_sent:
  "sent (trace (snd (probe env c (PStr n) url tmo st))) =
     sent (trace st) @ [delay_request c url tmo n]"
  by (auto simp: probe_def delay_def request_def delay_request_def Let_def emit_def sent_append
      split: prod.splits sum.splits option.splits bool.splits)

lemma test_delays_sent:
  "sent (trace (snd (test_delays env c (map PStr names) url tmo st))) =
     sent (trace st) @ map (delay_request c url tmo) names"
proof (induction names arbitrary: st)
  case Nil
  show ?case by simp
next
  case (Cons n names)
  show ?case
  proof (cases "probe env c (PStr n) url tmo st")
    case (Pair r st')
    have s: "sent (trace st') = sent (trace st) @ [delay_request c url tmo n]"
      using probe_sent [of env c n url tmo st] Pair by simp
    show ?thesis
    proof (cases r)
      case (Inl e)
      with Pair have "is_Exception e" by (auto dest: probe_Exception)
      with Pair Inl Cons.IH s show ?thesis by (simp add: emit_def sent_append)
    next
      case (Inr u)
      with Pair Cons.IH s show ?thesis by simp
    qed
  qed
qed

text \<open>
  Claim C2. When the delay probe of one target fails with a transport error, the failure
  is written for that target to the error stream and the loop goes on with the targets
  after it: running \<open>test_delays\<close> over \<open>pre @ n # post\<close>, where the probe of \<open>n\<close>
  fails, is running it over \<open>post\<close> from the state in which the request for \<open>n\<close> was sent
  and its failure line printed on the error stream. The batch always returns normally, and
  every target is probed, in input order, whatever the outcome of the other probes.
\<close>

theorem ping_continues_after_probe_failure:
  assumes "test_delays env c (map PStr pre) url tmo st = (r, st1)"
    and "urlopen env (net st1) (delay_request c url tmo n) = (Inl msg, w)"
  shows "test_delays env c (map PStr (pre @ n # post)) url tmo st =
           test_delays env c (map PStr post) url tmo
             (st1\<lparr>net := w,
                  trace := trace st1 @ [Sent (delay_request c url tmo n),
                    Stderr (n @ '': request failed ('' @ msg @ '')'')]\<rparr>)
         \<and> fst (test_delays env c (map PStr (pre @ n # post)) url tmo st) = Inr ()
         \<and> sent (trace (snd (test_delays env c (map PStr (pre @ n # post)) url tmo st))) =
             sent (trace st) @ map (delay_request c url tmo) (pre @ n # post)"
proof -
  have "test_delays env c (map PStr (pre @ n # post)) url tmo st =
          test_delays env c (PStr n # map PStr post) url tmo st1"
    using assms(1) test_delays_append [of env c "map PStr pre" "PStr n # map PStr post" url tmo st]
    by simp
  also have "\<dots> = test_delays env c (map PStr post) url tmo
             (st1\<lparr>net := w,
                  trace := trace st1 @ [Sent (delay_request c url tmo n),
                    Stderr (n @ '': request failed ('' @ msg @ '')'')]\<rparr>)"
    using probe_transport_failure [OF assms(2)] by (simp add: emit_def)
  finally show ?thesis
    using test_delays_returns [of env c "map PStr (pre @ n # post)" url tmo st]
      test_delays_sent [of env c "pre @ n # post" url tmo st]
    by simp
qed

theorem ping_continues_witness:
  "test_delays (ex_env Map.empty remdups ex_ping_answer) ex_client
       (map PStr [''n1'', ''n2'', ''n3'']) ex_url 5000 ex_state =
     (Inr (), ex_state\<lparr>trace :=
        [Sent (delay_request ex_client ex_url 5000 ''n1''), Stdout ''n1: 42 ms'',
         Sent (delay_request ex_client ex_url 5000 ''n2''),
         Stderr ''n2: request failed (timed out)'',
         Sent (delay_request ex_client ex_url 5000 ''n3''),
         Stdout ''n3: timeout/no response'']\<rparr>)"
proof -
  let ?E = "ex_env Map.empty remdups ex_ping_answer"
  let ?st1 = "ex_state\<lparr>trace :=
        [Sent (delay_request ex_client ex_url 5000 ''n1''), Stdout ''n1: 42 ms'']\<rparr>"
  have h1: "test_delays ?E ex_client (map PStr [''n1'']) ex_url 5000 ex_state = (Inr (), ?st1)"
    by (simp add: probe_def delay_def request_def Let_def emit_def ex_defs
        dict_get_default_def str_int_def str_nat.simps digit_char_def)
  have h2: "urlopen ?E (net ?st1) (delay_request ex_client ex_url 5000 ''n2'') =
              (Inl ''timed out'', ())"
    by (simp add: ex_defs)
  have "test_delays ?E ex_client (map PStr ([''n1''] @ ''n2'' # [''n3''])) ex_url 5000 ex_state =
          test_delays ?E ex_client (map PStr [''n3'']) ex_url 5000
            (?st1\<lparr>net := (),
                  trace := trace ?st1 @ [Sent (delay_request ex_client ex_url 5000 ''n2''),
                    Stderr (''n2'' @ '': request failed ('' @ ''timed out'' @ '')'')]\<rparr>)"
    using ping_continues_after_probe_failure [OF h1 h2, of "[''n3'']"] by blast
  then show ?thesis
    by (simp add: probe_def delay_def request_def Let_def emit_def ex_defs
        dict_get_default_def str_int_def str_nat.simps digit_char_def)
qed

subsection \<open>Delay normalization\<close>

lemma probe_answer:
  assumes "urlopen env (net st) (delay_request c url tmo n) = (Inr body, w)"
  shows "probe env c (PStr n) url tmo st =
           (let res = (case body of None \<Rightarrow> PDict [] | Some v \<Rightarrow> v);
                st' = st\<lparr>net := w, trace := trace st @ [Sent (delay_request c url tmo n)]\<rparr>
            in case py_get res ''delay'' PNone of
                 Inl e \<Rightarrow> (Inl e, st')
               | Inr d \<Rightarrow>
                   (case none_or_negative d of
                      Inl e \<Rightarrow> (Inl e, st')
                    | Inr True \<Rightarrow> (Inr (), emit (Stdout (n @ '': timeout/no response'')) st')
                    | Inr False \<Rightarrow>
                        (Inr (), emit (Stdout (n @ '': '' @ py_str env d @ '' ms'')) st')))"
  using assms
  by (auto simp: probe_def delay_def request_def delay_request_def Let_def emit_def
      split: option.splits sum.splits bool.splits)

lemma digit_char_in: "d < 10 \<Longrightarrow> digit_char d \<in> set ''0123456789''"
proof -
  assume "d < 10"
  then have "d \<in> {0, 1, 2, 3, 4, 5, 6, 7, 8, 9}" by auto
  then show ?thesis by (auto simp: digit_char_def)
qed

lemma str_nat_hd: "str_nat k \<noteq> [] \<and> hd (str_nat k) \<in> set ''0123456789''"
proof (induction k rule: str_nat.induct)
  case (1 n)
  show ?case
  proof (cases "n < 10")
    case True
    then show ?thesis using digit_char_in [of n] by (simp add: str_nat.simps [of n])
  next
    case False
    with "1" show ?thesis by (simp add: str_nat.simps [of n])
  qed
qed

lemma str_nat_not_minus: "str_nat k \<noteq> CHR ''-'' # s"
  using str_nat_hd [of k] by (cases "str_nat k") auto

lemma valid_delay_text:
  assumes "none_or_negative d = Inr False" and "i < 0"
  shows "py_str env d \<noteq> str_int i"
proof (cases d)
  case (PInt j)
  with assms show ?thesis using str_nat_not_minus [of "nat j"] by (auto simp: str_int_def)
next
  case (PBool b)
  with assms show ?thesis by (auto simp: str_int_def)
qed (use assms in auto)

lemma probe_never_negative:
  assumes "i < 0"
  shows "Stdout (n @ '': '' @ str_int i @ '' ms'') \<notin>
           set (drop (length (trace st)) (trace (snd (probe env c (PStr n) url tmo st))))"
proof (cases "urlopen env (net st) (delay_request c url tmo n)")
  case (Pair r w)
  show ?thesis
  proof (cases r)
    case (Inl m)
    with Pair show ?thesis
      by (simp add: probe_def delay_def request_def delay_request_def Let_def emit_def)
  next
    case (Inr body)
    have ne: "py_str env d \<noteq> str_int i" "str_int i \<noteq> py_str env d"
      if "none_or_negative d = Inr False" for d
      using valid_delay_text [OF that assms, of env] by auto
    have tm: "''timeout/no response'' \<noteq> str_int i @ '' ms''"
      using assms by (simp add: str_int_def)
    show ?thesis
      using probe_answer [of env st c url tmo n body w] Pair Inr ne tm
      by (auto simp: Let_def emit_def split: sum.splits bool.splits)
  qed
qed

text \<open>
  Claim C4. When the daemon answers a probe with an object (an empty body counts as the
  empty object), a delay that is absent, \<open>null\<close> or a negative integer such as \<open>-1\<close> is
  printed as \<open>timeout/no response\<close>, and a delay \<open>i \<ge> 0\<close> is printed as the decimal text
  of \<open>i\<close> followed by \<open>ms\<close>. Whatever the daemon answers, the probe never prints a line
  that shows a negative number as a delay.
\<close>

theorem delay_normalization:
  "(urlopen env (net st) (delay_request c url tmo n) = (Inr body, w) \<and>
    (case body of None \<Rightarrow> PDict [] | Some v \<Rightarrow> v) = PDict d \<longrightarrow>
      ((dict_get d ''delay'' = None \<or> dict_get d ''delay'' = Some PNone \<or>
        (\<exists>i<0. dict_get d ''delay'' = Some (PInt i))) \<longrightarrow>
         probe env c (PStr n) url tmo st =
           (Inr (), st\<lparr>net := w, trace := trace st @
              [Sent (delay_request c url tmo n), Stdout (n @ '': timeout/no response'')]\<rparr>)) \<and>
      (\<forall>i\<ge>0. dict_get d ''delay'' = Some (PInt i) \<longrightarrow>
         probe env c (PStr n) url tmo st =
           (Inr (), st\<lparr>net := w, trace := trace st @
              [Sent (delay_request c url tmo n), Stdout (n @ '': '' @ str_int i @ '' ms'')]\<rparr>)))
   \<and> (\<forall>i<0. Stdout (n @ '': '' @ str_int i @ '' ms'') \<notin>
         set (drop (length (trace st)) (trace (snd (probe env c (PStr n) url tmo st)))))"
proof -
  have a: "probe env c (PStr n) url tmo st =
           (Inr (), st\<lparr>net := w, trace := trace st @
              [Sent (delay_request c url tmo n), Stdout (n @ '': timeout/no response'')]\<rparr>)"
    if "urlopen env (net st) (delay_request c url tmo n) = (Inr body, w)"
      and "(case body of None \<Rightarrow> PDict [] | Some v \<Rightarrow> v) = PDict d"
      and "dict_get d ''delay'' = None \<or> dict_get d ''delay'' = Some PNone \<or>
        (\<exists>i<0. dict_get d ''delay'' = Some (PInt i))"
    using probe_answer [OF that(1)] that(2,3)
    by (auto simp: Let_def emit_def dict_get_def dict_get_default_def)
  have b: "probe env c (PStr n) url tmo st =
           (Inr (), st\<lparr>net := w, trace := trace st @
              [Sent (delay_request c url tmo n), Stdout (n @ '': '' @ str_int i @ '' ms'')]\<rparr>)"
    if "urlopen env (net st) (delay_request c url tmo n) = (Inr body, w)"
      and "(case body of None \<Rightarrow> PDict [] | Some v \<Rightarrow> v) = PDict d"
      and "0 \<le> i" and "dict_get d ''delay'' = Some (PInt i)" for i
    using probe_answer [OF that(1)] that(2,3,4)
    by (auto simp: Let_def emit_def dict_get_def dict_get_default_def)
  show ?thesis
    using a b probe_never_negative [of _ n st env c url tmo] by blast
qed

theorem delay_normalization_witness:
  "probe (ex_env Map.empty remdups ex_ping_answer) ex_client (PStr ''n1'') ex_url 5000 ex_state =
     (Inr (), ex_state\<lparr>trace :=
        [Sent (delay_request ex_client ex_url 5000 ''n1''), Stdout ''n1: 42 ms'']\<rparr>)
   \<and> probe (ex_env Map.empty remdups ex_ping_answer) ex_client (PStr ''n3'') ex_url 5000 ex_state =
     (Inr (), ex_state\<lparr>trace :=
        [Sent (delay_request ex_client ex_url 5000 ''n3''), Stdout ''n3: timeout/no response'']\<rparr>)"
proof -
  let ?E = "ex_env Map.empty remdups ex_ping_answer"
  have h1: "urlopen ?E (net ex_state) (delay_request ex_client ex_url 5000 ''n1'') =
              (Inr (Some (PDict [(''delay'', PInt 42)])), ())"
    by (simp add: ex_defs)
  have h3: "urlopen ?E (net ex_state) (delay_request ex_client ex_url 5000 ''n3'') =
              (Inr (Some (PDict [(''delay'', PInt (- 1))])), ())"
    by (simp add: ex_defs)
  have s42: "str_int 42 = ''42''"
    by (simp add: str_int_def str_nat.simps digit_char_def)
  have a: "probe ?E ex_client (PStr ''n1'') ex_url 5000 ex_state =
     (Inr (), ex_state\<lparr>trace :=
        [Sent (delay_request ex_client ex_url 5000 ''n1''), Stdout ''n1: 42 ms'']\<rparr>)"
    using delay_normalization [of ?E ex_state ex_client ex_url 5000 "''n1''"
        "Some (PDict [(''delay'', PInt 42)])" "()" "[(''delay'', PInt 42)]"] h1 s42
    by (simp add: dict_get_def ex_state_def)
  have b: "probe ?E ex_client (PStr ''n3'') ex_url 5000 ex_state =
     (Inr (), ex_state\<lparr>trace :=
        [Sent (delay_request ex_client ex_url 5000 ''n3''), Stdout ''n3: timeout/no response'']\<rparr>)"
    using delay_normalization [of ?E ex_state ex_client ex_url 5000 "''n3''"
        "Some (PDict [(''delay'', PInt (- 1))])" "()" "[(''delay'', PInt (- 1))]"] h3
    by (simp add: dict_get_def ex_state_def)
  from a b show ?thesis by simp
qed

subsection \<open>The fallback of the host\<close>

text \<open>
  Claim C6, as the code has it. With no host flag and no stored host, the host is the
  value of the environment variable \<open>CLASH_API_HOST\<close> when it is set, and the built-in
  \<open>127.0.0.1:9090\<close> only when it is not: line 21 reads the variable into \<open>DEFAULT_HOST\<close>.
  The secret falls back in the same way to \<open>CLASH_API_SECRET\<close>, and to none.
\<close>

theorem host_env_fallback:
  "(arg_host a = None \<and> dict_get stored ''host'' = None \<longrightarrow>
      resolve_host env a stored =
        (case getenv env ''CLASH_API_HOST'' of Some C \<Rightarrow> C | None \<Rightarrow> ''127.0.0.1:9090''))
   \<and> (arg_secret a = None \<and> dict_get stored ''secret'' = None \<longrightarrow>
      resolve_secret env a stored = getenv env ''CLASH_API_SECRET'')"
  by (simp add: resolve_host_def resolve_secret_def dict_get_def dict_get_default_def
      DEFAULT_HOST_def DEFAULT_SECRET_def split: option.splits)

theorem host_env_fallback_witness:
  "resolve_host (ex_env ex_vars remdups ex_proxies_answer)
      (ex_args None None (CmdList False False)) [] = ''10.0.0.1:9999''
   \<and> resolve_host (ex_env Map.empty remdups ex_proxies_answer)
      (ex_args None None (CmdList False False)) [] = ''127.0.0.1:9090''
   \<and> resolve_secret (ex_env ex_vars remdups ex_proxies_answer)
      (ex_args None None (CmdList False False)) [] = None"
  using host_env_fallback [of "ex_args None None (CmdList False False)" "[]"
      "ex_env ex_vars remdups ex_proxies_answer"]
    host_env_fallback [of "ex_args None None (CmdList False False)" "[]"
      "ex_env Map.empty remdups ex_proxies_answer"]
  by (simp add: ex_args_def ex_env_def ex_vars_def dict_get_def)

lemma main_list:
  assumes "arg_command a = Some (CmdList g n)"
    and "load_config (expanduser env (arg_config a)) st = (stored, st1)"
  shows "main env a st =
           list_proxies env
             (ClashClient (resolve_host env a stored) (resolve_secret env a stored))
             (g \<or> \<not> n) (n \<or> \<not> g) st1"
  using assms by (simp add: main_def)

text \<open>
  The claim as it is written fails: with \<open>CLASH_API_HOST=10.0.0.1:9999\<close> in the
  environment, no flag and no configuration file, \<open>list\<close> sends its request to
  \<open>10.0.0.1:9999\<close>, not to the built-in default.
\<close>

theorem host_env_fallback_counterexample:
  "arg_host (ex_args None None (CmdList False False)) = None
   \<and> fs ex_state (expanduser (ex_env ex_vars remdups ex_proxies_answer) ''clash_cli.json'') = None
   \<and> resolve_host (ex_env ex_vars remdups ex_proxies_answer)
         (ex_args None None (CmdList False False)) [] = ''10.0.0.1:9999''
   \<and> resolve_host (ex_env ex_vars remdups ex_proxies_answer)
         (ex_args None None (CmdList False False)) [] \<noteq> ''127.0.0.1:9090''
   \<and> map req_base (sent (trace (snd (main (ex_env ex_vars remdups ex_proxies_answer)
         (ex_args None None (CmdList False False)) ex_state)))) = [''http://10.0.0.1:9999'']"
proof -
  let ?E = "ex_env ex_vars remdups ex_proxies_answer"
  let ?a = "ex_args None None (CmdList False False)"
  have h: "resolve_host ?E ?a [] = ''10.0.0.1:9999''"
    by (simp add: resolve_host_def ex_args_def ex_env_def ex_vars_def DEFAULT_HOST_def
        dict_get_default_def)
  have s: "resolve_secret ?E ?a [] = None"
    by (simp add: resolve_secret_def ex_args_def ex_env_def ex_vars_def DEFAULT_SECRET_def
        dict_get_def)
  have l: "load_config (expanduser ?E (arg_config ?a)) ex_state = ([], ex_state)"
    by (simp add: load_config_def ex_state_def)
  have c: "base (ClashClient ''10.0.0.1:9999'' None) = ''http://10.0.0.1:9999''"
    by (simp add: ClashClient_def startswith_def rstrip_slash_def)
  have m: "main ?E ?a ex_state =
      list_proxies ?E (ClashClient ''10.0.0.1:9999'' None) True True ex_state"
    using main_list [of ?a False False ?E ex_state "[]" ex_state] l h s
    by (simp add: ex_args_def)
  have "map req_base (sent (trace (snd (list_proxies ?E (ClashClient ''10.0.0.1:9999'' None)
      True True ex_state)))) = [''http://10.0.0.1:9999'']"
    by (simp add: list_proxies_def proxies_def request_def build_request_def Let_def emit_def
        ex_env_def ex_proxies_answer_def ex_state_def dict_get_default_def c)
  with h m show ?thesis
    by (simp add: ex_args_def ex_state_def)
qed

subsection \<open>Writing the store\<close>

lemma dict_get_dict_set:
  "dict_get (dict_set d k v) k' = (if k' = k then Some v else dict_get d k')"
  by (induction d) (auto simp: dict_get_def)

lemma filter_dict_set:
  "filter (\<lambda>kv. fst kv \<noteq> k) (dict_set d k v) = filter (\<lambda>kv. fst kv \<noteq> k) d"
  by (induction d) auto

lemma fst_load_config:
  "fst (load_config path st) = (case fs st path of Some (Doc d) \<Rightarrow> d | _ \<Rightarrow> [])"
  by (simp add: load_config_def split: option.splits fcontent.splits)

lemma fs_load_config: "fs (snd (load_config path st)) = fs st"
  by (simp add: load_config_def emit_def split: option.splits fcontent.splits)

text \<open>
  Claim C10. The store that \<open>config\<close> reads is the document of the file, or the empty
  one when the file is absent or unreadable. Setting the host alone rewrites the file with
  the host set and every pair under another key (the secret, keys the program does not
  know) as it was, in the same order; setting the secret alone does the same for the
  secret.
\<close>

theorem config_write_frame:
  assumes "arg_command a = Some (CmdConfig sh)"
    and "path = expanduser env (arg_config a)"
    and "stored = (case fs st path of Some (Doc d) \<Rightarrow> d | _ \<Rightarrow> [])"
  shows "(arg_host a = Some H \<and> arg_secret a = None \<longrightarrow>
           (\<exists>d'. fs (snd (main env a st)) path = Some (Doc d') \<and>
                 dict_get d' ''host'' = Some H \<and>
                 filter (\<lambda>kv. fst kv \<noteq> ''host'') d' = filter (\<lambda>kv. fst kv \<noteq> ''host'') stored))
       \<and> (arg_host a = None \<and> arg_secret a = Some S \<longrightarrow>
           (\<exists>d'. fs (snd (main env a st)) path = Some (Doc d') \<and>
                 dict_get d' ''secret'' = Some S \<and>
                 filter (\<lambda>kv. fst kv \<noteq> ''secret'') d' = filter (\<lambda>kv. fst kv \<noteq> ''secret'') stored))"
proof -
  obtain st1 where l: "load_config path st = (stored, st1)" and f: "fs st1 = fs st"
    using fst_load_config [of path st] fs_load_config [of path st] assms(3)
    by (cases "load_config path st") auto
  have m: "main env a st = cmd_config env a sh path stored st1"
    using assms(1,2) l by (simp add: main_def)
  show ?thesis
    unfolding m
    by (auto simp: cmd_config_def save_config_def emit_def Let_def dict_get_dict_set
        filter_dict_set)
qed

theorem config_write_frame_witness:
  "\<exists>d'. fs (snd (main (ex_env ex_vars remdups ex_proxies_answer)
                 (ex_args (Some ''10.0.0.2:9090'') None (CmdConfig False)) ex_stored_state))
            ''clash_cli.json'' = Some (Doc d') \<and>
        dict_get d' ''host'' = Some ''10.0.0.2:9090'' \<and>
        filter (\<lambda>kv. fst kv \<noteq> ''host'') d' = [(''secret'', ''s3cr3t''), (''theme'', ''dark'')]"
proof -
  let ?a = "ex_args (Some ''10.0.0.2:9090'') None (CmdConfig False)"
  let ?E = "ex_env ex_vars remdups ex_proxies_answer"
  have h1: "arg_command ?a = Some (CmdConfig False)"
    by (simp add: ex_args_def)
  have h2: "''clash_cli.json'' = expanduser ?E (arg_config ?a)"
    by (simp add: ex_args_def ex_env_def)
  have h3: "[(''secret'', ''s3cr3t''), (''theme'', ''dark'')] =
      (case fs ex_stored_state ''clash_cli.json'' of Some (Doc d) \<Rightarrow> d | _ \<Rightarrow> [])"
    by (simp add: ex_stored_state_def)
  have h4: "arg_host ?a = Some ''10.0.0.2:9090'' \<and> arg_secret ?a = None"
    by (simp add: ex_args_def)
  have f: "filter (\<lambda>kv. fst kv \<noteq> ''host'') [(''secret'', ''s3cr3t''), (''theme'', ''dark'')] =
      [(''secret'', ''s3cr3t''), (''theme'', ''dark'')]"
    by simp
  from config_write_frame [OF h1 h2 h3, of "''10.0.0.2:9090''"] h4
  have "\<exists>d'. fs (snd (main ?E ?a ex_stored_state)) ''clash_cli.json'' = Some (Doc d') \<and>
        dict_get d' ''host'' = Some ''10.0.0.2:9090'' \<and>
        filter (\<lambda>kv. fst kv \<noteq> ''host'') d' =
          filter (\<lambda>kv. fst kv \<noteq> ''host'') [(''secret'', ''s3cr3t''), (''theme'', ''dark'')]"
    by blast
  then show ?thesis
    unfolding f .
qed

subsection \<open>Reading the store back\<close>

lemma main_config:
  assumes "arg_command a = Some (CmdConfig sh)"
    and "load_config (expanduser env (arg_config a)) st = (stored, st1)"
  shows "main env a st = cmd_config env a sh (expanduser env (arg_config a)) stored st1"
  using assms by (simp add: main_def)

lemma config_set_both:
  assumes "arg_host a = Some H" and "arg_secret a = Some S"
  shows "cmd_config env a sh path stored st =
           (let st' = st\<lparr>fs := (fs st)(path \<mapsto> Doc (dict_set (dict_set stored ''host'' H) ''secret'' S)),
                          trace := trace st @ [Stdout (msg_saved @ path)]\<rparr>
            in if sh
               then (Inr (), st'\<lparr>trace := trace st' @
                       [Stdout (''host: '' @ H), Stdout (''secret: '' @ or_empty (Some S))]\<rparr>)
               else (Inr (), st'))"
  using assms
  by (simp add: cmd_config_def save_config_def emit_def Let_def dict_get_dict_set
      dict_get_default_def dict_get_def [symmetric])

lemma config_show_stored:
  assumes "arg_host a = None" and "arg_secret a = None"
    and "dict_get stored ''host'' = Some H" and "dict_get stored ''secret'' = Some S"
  shows "cmd_config env a sh path stored st =
           (Inr (), st\<lparr>trace := trace st @
              [Stdout (''host: '' @ H), Stdout (''secret: '' @ or_empty (Some S))]\<rparr>)"
  using assms
  by (simp add: cmd_config_def emit_def Let_def dict_get_default_def dict_get_def)

text \<open>
  Claim C8, as the code has it. After \<open>config --host H --secret S\<close>, a fresh run of
  \<open>config --show\<close> on the same file, with no flag and whatever its environment, prints
  \<open>H\<close> as the host. It prints \<open>S\<close> as the secret when \<open>S\<close> is not empty; an empty secret
  is shown as \<open>(empty)\<close> (line 192).
\<close>

theorem config_round_trip:
  assumes "expanduser env2 p2 = expanduser env1 p1"
    and "st1 = snd (main env1 \<lparr>arg_host = Some H, arg_secret = Some S, arg_config = p1,
                               arg_command = Some (CmdConfig sh)\<rparr> st)"
  shows "main env2 \<lparr>arg_host = None, arg_secret = None, arg_config = p2,
                     arg_command = Some (CmdConfig True)\<rparr> st1 =
           (Inr (), st1\<lparr>trace := trace st1 @
              [Stdout (''host: '' @ H),
               Stdout (''secret: '' @ (if S = [] then ''(empty)'' else S))]\<rparr>)"
proof -
  let ?a1 = "\<lparr>arg_host = Some H, arg_secret = Some S, arg_config = p1,
              arg_command = Some (CmdConfig sh)\<rparr>"
  let ?a2 = "\<lparr>arg_host = None, arg_secret = None, arg_config = p2,
              arg_command = Some (CmdConfig True)\<rparr>"
  let ?path = "expanduser env1 p1"
  obtain stored st0 where l: "load_config ?path st = (stored, st0)"
    by (cases "load_config ?path st") auto
  let ?d = "dict_set (dict_set stored ''host'' H) ''secret'' S"
  have "main env1 ?a1 st = cmd_config env1 ?a1 sh ?path stored st0"
    using main_config [of ?a1 sh env1 st stored st0] l by simp
  then have f: "fs st1 ?path = Some (Doc ?d)"
    using assms(2) config_set_both [of ?a1 H S env1 sh ?path stored st0]
    by (simp add: Let_def)
  have l2: "load_config (expanduser env2 (arg_config ?a2)) st1 = (?d, st1)"
    using f assms(1) by (simp add: load_config_def)
  have g: "dict_get ?d ''host'' = Some H" "dict_get ?d ''secret'' = Some S"
    by (simp_all add: dict_get_dict_set)
  have "main env2 ?a2 st1 = cmd_config env2 ?a2 True (expanduser env2 p2) ?d st1"
    using main_config [of ?a2 True env2 st1 ?d st1] l2 by simp
  also have "\<dots> = (Inr (), st1\<lparr>trace := trace st1 @
              [Stdout (''host: '' @ H), Stdout (''secret: '' @ or_empty (Some S))]\<rparr>)"
    using config_show_stored [of ?a2 ?d H S env2 True "expanduser env2 p2" st1] g by simp
  finally show ?thesis
    by (simp add: or_empty_def)
qed

theorem config_round_trip_witness:
  "trace (snd (main (ex_env ex_vars remdups ex_proxies_answer)
                 (ex_args None None (CmdConfig True))
                 (snd (main (ex_env ex_vars remdups ex_proxies_answer)
                         (ex_args (Some ''10.0.0.2:9090'') (Some ''s3cr3t'') (CmdConfig False))
                         ex_state)))) =
     trace (snd (main (ex_env ex_vars remdups ex_proxies_answer)
                   (ex_args (Some ''10.0.0.2:9090'') (Some ''s3cr3t'') (CmdConfig False))
                   ex_state)) @
     [Stdout ''host: 10.0.0.2:9090'', Stdout ''secret: s3cr3t'']"
  using config_round_trip [OF refl refl, of "ex_env ex_vars remdups ex_proxies_answer"
      "''clash_cli.json''" "''10.0.0.2:9090''" "''s3cr3t''" False ex_state]
  by (simp add: ex_args_def)

text \<open>
  The claim as it is written fails for the empty secret: after
  \<open>config --host 10.0.0.2:9090 --secret ""\<close> the second run prints \<open>secret: (empty)\<close>,
  the line it also prints when no secret is stored at all.
\<close>

theorem config_round_trip_counterexample:
  "trace (snd (main (ex_env ex_vars remdups ex_proxies_answer)
                 (ex_args None None (CmdConfig True))
                 (snd (main (ex_env ex_vars remdups ex_proxies_answer)
                         (ex_args (Some ''10.0.0.2:9090'') (Some []) (CmdConfig False))
                         ex_state)))) =
     [Stdout (msg_saved @ ''clash_cli.json''), Stdout ''host: 10.0.0.2:9090'',
      Stdout ''secret: (empty)'']
   \<and> Stdout ''secret: '' \<notin>
       set (trace (snd (main (ex_env ex_vars remdups ex_proxies_answer)
                 (ex_args None None (CmdConfig True))
                 (snd (main (ex_env ex_vars remdups ex_proxies_answer)
                         (ex_args (Some ''10.0.0.2:9090'') (Some []) (CmdConfig False))
                         ex_state)))))"
proof -
  let ?E = "ex_env ex_vars remdups ex_proxies_answer"
  let ?a1 = "ex_args (Some ''10.0.0.2:9090'') (Some []) (CmdConfig False)"
  let ?a2 = "ex_args None None (CmdConfig True)"
  let ?d = "[(''host'', ''10.0.0.2:9090''), (''secret'', [])]"
  let ?st1 = "ex_state\<lparr>fs := (fs ex_state)(''clash_cli.json'' \<mapsto> Doc ?d),
                       trace := trace ex_state @ [Stdout (msg_saved @ ''clash_cli.json'')]\<rparr>"
  have l1: "load_config (expanduser ?E (arg_config ?a1)) ex_state = ([], ex_state)"
    by (simp add: load_config_def ex_state_def)
  have r1: "main ?E ?a1 ex_state = (Inr (), ?st1)"
    using main_config [of ?a1 False ?E ex_state "[]" ex_state] l1
      config_set_both [of ?a1 "''10.0.0.2:9090''" "[]" ?E False "''clash_cli.json''" "[]" ex_state]
    by (simp add: ex_args_def ex_env_def)
  have l2: "load_config (expanduser ?E (arg_config ?a2)) ?st1 = (?d, ?st1)"
    by (simp add: load_config_def ex_args_def ex_env_def)
  have r2: "main ?E ?a2 ?st1 =
      (Inr (), ?st1\<lparr>trace := trace ?st1 @
         [Stdout (''host: '' @ ''10.0.0.2:9090''), Stdout (''secret: '' @ or_empty (Some []))]\<rparr>)"
    using main_config [of ?a2 True ?E ?st1 ?d ?st1] l2
      config_show_stored [of ?a2 ?d "''10.0.0.2:9090''" "[]" ?E True "''clash_cli.json''" ?st1]
    by (simp add: ex_args_def ex_env_def dict_get_def)
  have t: "trace (snd (main ?E ?a2 (snd (main ?E ?a1 ex_state)))) =
      [Stdout (msg_saved @ ''clash_cli.json''), Stdout ''host: 10.0.0.2:9090'',
       Stdout ''secret: (empty)'']"
    unfolding r1 snd_conv r2
    by (simp add: or_empty_def ex_state_def)
  show ?thesis
    unfolding t by (simp add: msg_saved_def)
qed

subsection \<open>The members of a group\<close>

lemma proxy_eq:
  assumes "urlopen env (net st) (proxy_request c g) = (r, w)"
  shows "proxy env c g st =
           ((case r of
               Inl m \<Rightarrow> Inl (TransportError m)
             | Inr None \<Rightarrow> Inr (PDict [])
             | Inr (Some v) \<Rightarrow> Inr v),
            st\<lparr>net := w, trace := trace st @ [Sent (proxy_request c g)]\<rparr>)"
  using assms
  by (auto simp: proxy_def request_def proxy_request_def Let_def emit_def
      split: sum.splits option.splits)



lemmas daemon_defs = ex_daemon_def proxy_request_def switch_request_def build_request_def
  lstrip_slash_def quote_def unreserved_def hex_digit_def ex_env_def ex_state_def



subsection \<open>Switching with validation\<close>

lemma strs_of_map: "strs_of i (map PStr ls) = Inr ls"
  by (induction ls arbitrary: i) (auto simp: bindE_def)

lemma all_strs: "set xs \<subseteq> range PStr \<Longrightarrow> \<exists>ls. xs = map PStr ls"
proof (induction xs)
  case Nil
  show ?case by simp
next
  case (Cons x xs)
  then obtain ls s where "xs = map PStr ls" and "x = PStr s" by auto
  then have "x # xs = map PStr (s # ls)" by simp
  then show ?case by (rule exI)
qed

lemma set_iter_strs:
  assumes "set_iter_ok env"
  shows "\<exists>ls. set_iter env (map PStr ms) = map PStr ls \<and> distinct ls \<and> set ls = set ms"
proof -
  from assms have d: "distinct (set_iter env (map PStr ms))"
    and s: "set (set_iter env (map PStr ms)) = set (map PStr ms)"
    by (simp_all add: set_iter_ok_def)
  from s have "set (set_iter env (map PStr ms)) \<subseteq> range PStr" by auto
  then obtain ls where ls: "set_iter env (map PStr ms) = map PStr ls"
    using all_strs by blast
  from d ls have "distinct ls" by (simp add: distinct_map)
  moreover from s ls have "PStr ` set ls = PStr ` set ms" by simp
  then have "set ls = set ms" by (simp add: inj_image_eq_iff inj_on_def)
  ultimately show ?thesis using ls by blast
qed

lemma find_unhashable_strs: "find (\<lambda>x. \<not> hashable x) (map PStr ms) = None"
  by (induction ms) auto

lemma py_set_strs: "py_set (PList (map PStr ms)) = Inr (map PStr ms)"
  by (simp add: py_set_def bindE_def find_unhashable_strs)

lemma switch_reject:
  assumes "nodes_from_group env c g st = (Inr (PList (map PStr ms)), st1)"
    and "n \<notin> set ms"
    and "set_iter env (map PStr ms) = map PStr ls"
  shows "cmd_switch env c g n True st =
           (Inl (SystemExit 1),
            st1\<lparr>trace := trace st1 @
              [Stdout (msg_node @ n @ msg_not_in_group @ g @ msg_members @ join '', '' ls)]\<rparr>)"
  using assms
  by (auto simp: cmd_switch_def py_set_strs py_join_seq_def strs_of_map bindE_def emit_def)

lemma switch_accept:
  assumes "nodes_from_group env c g st = (Inr (PList (map PStr ms)), st1)"
    and "n \<in> set ms"
  shows "cmd_switch env c g n True st = do_switch env c g n st1"
  using assms by (auto simp: cmd_switch_def py_set_strs)

lemma request_sent:
  "sent (trace (snd (request env c m p data q st))) =
     sent (trace st) @ [build_request c m p data q]"
  by (auto simp: request_def Let_def emit_def sent_append split: prod.splits sum.splits option.splits)

lemma do_switch_sent:
  "sent (trace (snd (do_switch env c g n st))) = sent (trace st) @ [switch_request c g n]"
  using request_sent [of env c PUT "''/proxies/'' @ quote g" "Some (PDict [(''name'', PStr n)])" "[]" st]
  by (auto simp: do_switch_def switch_def switch_request_def emit_def sent_append
      split: prod.splits sum.splits)

lemma nodes_from_group_sent:
  "sent (trace (snd (nodes_from_group env c g st))) = sent (trace st) @ [proxy_request c g]"
  using request_sent [of env c GET "''/proxies/'' @ quote g" None "[]" st]
  by (auto simp: nodes_from_group_def proxy_def proxy_request_def
      split: prod.splits sum.splits bool.splits)

lemma switch_put_only_member:
  assumes "\<exists>r \<in> set (drop (length (sent (trace st)))
                     (sent (trace (snd (cmd_switch env c g n True st))))). req_method r = PUT"
  shows "\<exists>v xs st1. nodes_from_group env c g st = (Inr v, st1) \<and> py_set v = Inr xs \<and>
           PStr n \<in> set xs"
proof (cases "nodes_from_group env c g st")
  case (Pair r st1)
  have s: "sent (trace st1) = sent (trace st) @ [proxy_request c g]"
    using nodes_from_group_sent [of env c g st] Pair by simp
  have get: "req_method (proxy_request c g) = GET"
    by (simp add: proxy_request_def build_request_def)
  show ?thesis
  proof (cases r)
    case (Inl e)
    with Pair s get assms show ?thesis by (simp add: cmd_switch_def)
  next
    case (Inr v)
    show ?thesis
    proof (cases "py_set v")
      case (Inl e)
      with Pair Inr s get assms show ?thesis by (simp add: cmd_switch_def)
    next
      case xs: (Inr xs)
      show ?thesis
      proof (cases "PStr n \<in> set xs")
        case True
        with Pair Inr xs show ?thesis by simp
      next
        case False
        with Pair Inr xs s get assms show ?thesis
          by (auto simp: cmd_switch_def emit_def sent_append split: sum.splits)
      qed
    qed
  qed
qed

lemma main_switch:
  assumes "arg_command a = Some (CmdSwitch g n v)"
    and "load_config (expanduser env (arg_config a)) st = (stored, st0)"
  shows "main env a st =
           cmd_switch env
             (ClashClient (resolve_host env a stored) (resolve_secret env a stored)) g n v st0"
  using assms by (simp add: main_def)

lemma nodes_from_group_members:
  assumes "urlopen env (net st) (proxy_request c g) = (Inr body, w)"
    and "(case body of None \<Rightarrow> PDict [] | Some v \<Rightarrow> v) = PDict d"
    and "is_selector (PDict d) = Inr True"
  shows "nodes_from_group env c g st =
           (Inr (dict_get_default d ''all'' (PList [])),
            st\<lparr>net := w, trace := trace st @ [Sent (proxy_request c g)]\<rparr>)"
  using proxy_eq [OF assms(1)] assms(2,3)
  by (auto simp: nodes_from_group_def split: option.splits)

text \<open>
  Claim C3. \<open>switch --validate\<close> asks the daemon for the group first. When the answer
  is a group whose members are the names \<open>ms\<close> and the node is not among them, the run
  sends nothing else, prints the message that lists the members (each once) and exits
  with status 1; when the node is among them, it goes on to the \<open>PUT\<close> request. Whatever
  the daemon answers, a \<open>PUT\<close> request is sent only if the node is in the set built from
  the answer.
\<close>

theorem switch_validate:
  assumes "arg_command a = Some (CmdSwitch g n True)"
    and "load_config (expanduser env (arg_config a)) st = (stored, st0)"
    and "c = ClashClient (resolve_host env a stored) (resolve_secret env a stored)"
  shows "(\<forall>body w d ms.
            urlopen env (net st0) (proxy_request c g) = (Inr body, w) \<and>
            (case body of None \<Rightarrow> PDict [] | Some v \<Rightarrow> v) = PDict d \<and>
            is_selector (PDict d) = Inr True \<and>
            dict_get_default d ''all'' (PList []) = PList (map PStr ms) \<and>
            set_iter_ok env \<longrightarrow>
              (n \<notin> set ms \<longrightarrow>
                 (\<exists>ls. distinct ls \<and> set ls = set ms \<and>
                    main env a st =
                      (Inl (SystemExit 1),
                       st0\<lparr>net := w, trace := trace st0 @
                         [Sent (proxy_request c g),
                          Stdout (msg_node @ n @ msg_not_in_group @ g @ msg_members @
                            join '', '' ls)]\<rparr>))) \<and>
              (n \<in> set ms \<longrightarrow>
                 main env a st =
                   do_switch env c g n
                     (st0\<lparr>net := w, trace := trace st0 @ [Sent (proxy_request c g)]\<rparr>) \<and>
                 sent (trace (snd (main env a st))) =
                   sent (trace st0) @ [proxy_request c g, switch_request c g n]))
       \<and> ((\<exists>r \<in> set (drop (length (sent (trace st0))) (sent (trace (snd (main env a st))))).
              req_method r = PUT) \<longrightarrow>
            (\<exists>v xs st1. nodes_from_group env c g st0 = (Inr v, st1) \<and> py_set v = Inr xs \<and>
               PStr n \<in> set xs))"
proof -
  have m: "main env a st = cmd_switch env c g n True st0"
    using main_switch [OF assms(1,2)] assms(3) by simp
  have rej: "\<exists>ls. distinct ls \<and> set ls = set ms \<and>
      main env a st =
        (Inl (SystemExit 1),
         st0\<lparr>net := w, trace := trace st0 @
           [Sent (proxy_request c g),
            Stdout (msg_node @ n @ msg_not_in_group @ g @ msg_members @ join '', '' ls)]\<rparr>)"
    if "urlopen env (net st0) (proxy_request c g) = (Inr body, w)"
      and "(case body of None \<Rightarrow> PDict [] | Some v \<Rightarrow> v) = PDict d"
      and "is_selector (PDict d) = Inr True"
      and "dict_get_default d ''all'' (PList []) = PList (map PStr ms)"
      and "set_iter_ok env" and "n \<notin> set ms" for body w d ms
  proof -
    from set_iter_strs [OF that(5), of ms] obtain ls
      where ls: "set_iter env (map PStr ms) = map PStr ls" "distinct ls" "set ls = set ms"
      by blast
    have "nodes_from_group env c g st0 =
        (Inr (PList (map PStr ms)), st0\<lparr>net := w, trace := trace st0 @ [Sent (proxy_request c g)]\<rparr>)"
      using nodes_from_group_members [OF that(1,2,3)] that(4) by simp
    from switch_reject [OF this that(6) ls(1)] m ls(2,3) show ?thesis
      by auto
  qed
  have acc: "main env a st =
        do_switch env c g n (st0\<lparr>net := w, trace := trace st0 @ [Sent (proxy_request c g)]\<rparr>) \<and>
      sent (trace (snd (main env a st))) =
        sent (trace st0) @ [proxy_request c g, switch_request c g n]"
    if "urlopen env (net st0) (proxy_request c g) = (Inr body, w)"
      and "(case body of None \<Rightarrow> PDict [] | Some v \<Rightarrow> v) = PDict d"
      and "is_selector (PDict d) = Inr True"
      and "dict_get_default d ''all'' (PList []) = PList (map PStr ms)"
      and "n \<in> set ms" for body w d ms
  proof -
    have "nodes_from_group env c g st0 =
        (Inr (PList (map PStr ms)), st0\<lparr>net := w, trace := trace st0 @ [Sent (proxy_request c g)]\<rparr>)"
      using nodes_from_group_members [OF that(1,2,3)] that(4) by simp
    from switch_accept [OF this that(5)] m show ?thesis
      by (simp add: do_switch_sent sent_append)
  qed
  have only: "\<exists>v xs st1. nodes_from_group env c g st0 = (Inr v, st1) \<and> py_set v = Inr xs \<and>
               PStr n \<in> set xs"
    if "\<exists>r \<in> set (drop (length (sent (trace st0))) (sent (trace (snd (main env a st))))).
              req_method r = PUT"
    using switch_put_only_member [of st0 env c g n] that m by simp
  show ?thesis
    using rej acc only by blast
qed

lemma ex_default_client:
  "ClashClient (resolve_host (ex_env Map.empty order answer) (ex_args None None cmd) [])
     (resolve_secret (ex_env Map.empty order answer) (ex_args None None cmd) []) = ex_client"
  by (simp add: resolve_host_def resolve_secret_def ex_env_def ex_args_def ex_client_def
      DEFAULT_HOST_def DEFAULT_SECRET_def dict_get_def dict_get_default_def)

lemma ex_load_nothing:
  "load_config (expanduser (ex_env vars order answer) (arg_config (ex_args h s cmd))) ex_state =
     ([], ex_state)"
  by (simp add: load_config_def ex_state_def)

lemma ex_group_is_selector: "is_selector ex_group = Inr True"
  by (simp add: is_selector_def ex_group_def bindE_def dict_get_default_def group_types_def)

lemma remdups_ok: "set_iter_ok (ex_env vars remdups answer)"
  by (simp add: set_iter_ok_def ex_env_def)

theorem switch_validate_witness:
  "(\<exists>ls. distinct ls \<and> set ls = {''a'', ''b''} \<and>
      main (ex_env Map.empty remdups ex_daemon)
        (ex_args None None (CmdSwitch ''Proxy'' ''c'' True)) ex_state =
        (Inl (SystemExit 1),
         ex_state\<lparr>trace :=
           [Sent (proxy_request ex_client ''Proxy''),
            Stdout (msg_node @ ''c'' @ msg_not_in_group @ ''Proxy'' @ msg_members @
              join '', '' ls)]\<rparr>))
   \<and> sent (trace (snd (main (ex_env Map.empty remdups ex_daemon)
        (ex_args None None (CmdSwitch ''Proxy'' ''b'' True)) ex_state))) =
       [proxy_request ex_client ''Proxy'', switch_request ex_client ''Proxy'' ''b'']"
proof -
  let ?E = "ex_env Map.empty remdups ex_daemon"
  let ?d = "[(''type'', PStr ''Selector''), (''now'', PStr ''a''),
     (''all'', PList [PStr ''a'', PStr ''b''])]"
  have u: "urlopen ?E (net ex_state) (proxy_request ex_client ''Proxy'') =
      (Inr (Some ex_group), ())"
    by (simp add: daemon_defs)
  have b: "(case Some ex_group of None \<Rightarrow> PDict [] | Some v \<Rightarrow> v) = PDict ?d"
    by (simp add: ex_group_def)
  have g: "is_selector (PDict ?d) = Inr True"
    using ex_group_is_selector by (simp add: ex_group_def)
  have al: "dict_get_default ?d ''all'' (PList []) = PList (map PStr [''a'', ''b''])"
    by (simp add: dict_get_default_def)
  have e: "ex_state\<lparr>net := (), trace := evs\<rparr> = ex_state\<lparr>trace := evs\<rparr>" for evs
    by (simp add: ex_state_def)
  have t: "trace ex_state = []"
    by (simp add: ex_state_def)
  have argc: "arg_command (ex_args None None (CmdSwitch ''Proxy'' ''c'' True)) =
      Some (CmdSwitch ''Proxy'' ''c'' True)"
    by (simp add: ex_args_def)
  have argb: "arg_command (ex_args None None (CmdSwitch ''Proxy'' ''b'' True)) =
      Some (CmdSwitch ''Proxy'' ''b'' True)"
    by (simp add: ex_args_def)
  have pre: "urlopen ?E (net ex_state) (proxy_request ex_client ''Proxy'') =
        (Inr (Some ex_group), ()) \<and>
      (case Some ex_group of None \<Rightarrow> PDict [] | Some v \<Rightarrow> v) = PDict ?d \<and>
      is_selector (PDict ?d) = Inr True \<and>
      dict_get_default ?d ''all'' (PList []) = PList (map PStr [''a'', ''b'']) \<and>
      set_iter_ok ?E"
    using u b g al remdups_ok [of Map.empty ex_daemon] by blast
  have nc: "''c'' \<notin> set [''a'', ''b'']" and mb: "''b'' \<in> set [''a'', ''b'']"
    by simp_all
  note rej = switch_validate [OF argc
      ex_load_nothing [of Map.empty remdups ex_daemon None None "CmdSwitch ''Proxy'' ''c'' True"]
      ex_default_client [of remdups ex_daemon "CmdSwitch ''Proxy'' ''c'' True", symmetric],
      THEN conjunct1, rule_format,
      where body = "Some ex_group" and w = "()" and d = ?d and ms = "[''a'', ''b'']",
      OF pre, THEN conjunct1, THEN mp, OF nc]
  note acc = switch_validate [OF argb
      ex_load_nothing [of Map.empty remdups ex_daemon None None "CmdSwitch ''Proxy'' ''b'' True"]
      ex_default_client [of remdups ex_daemon "CmdSwitch ''Proxy'' ''b'' True", symmetric],
      THEN conjunct1, rule_format,
      where body = "Some ex_group" and w = "()" and d = ?d and ms = "[''a'', ''b'']",
      OF pre, THEN conjunct2, THEN mp, OF mb, THEN conjunct2]
  from rej acc show ?thesis
    by (simp add: e t)
qed

subsection \<open>The order of the members\<close>

lemma py_join_strs: "py_join sep (PList (map PStr ms)) = Inr (join sep ms)"
  by (simp add: py_join_def py_join_seq_def strs_of_map bindE_def)

lemma group_line_members:
  assumes "dict_get_default d ''all'' (PList []) = PList (map PStr ms)"
  shows "group_line env name (PDict d) =
           Inr (name @ '' ['' @ py_str env (dict_get_default d ''type'' (PStr ''?'')) @
                '']: now='' @ py_str env (dict_get_default d ''now'' PNone) @
                ''; members='' @ join '', '' ms)"
  using assms by (simp add: group_line_def bindE_def py_join_strs)

text \<open>
  Claim C9, as the code has it. The line that \<open>list\<close> prints for a group shows the
  members in the order of the daemon's answer. The message of a rejected
  \<open>switch --validate\<close> is built from the \<open>set\<close> of line 220: it lists every member once,
  in the order in which that set is iterated.
\<close>

theorem member_order:
  assumes "dict_get_default d ''all'' (PList []) = PList (map PStr ms)"
  shows "group_line env name (PDict d) =
           Inr (name @ '' ['' @ py_str env (dict_get_default d ''type'' (PStr ''?'')) @
                '']: now='' @ py_str env (dict_get_default d ''now'' PNone) @
                ''; members='' @ join '', '' ms)
       \<and> (is_selector (PDict d) = Inr True \<longrightarrow>
            print_groups env [(name, PDict d)] st =
              (Inr (), st\<lparr>trace := trace st @
                 [Stdout (name @ '' ['' @ py_str env (dict_get_default d ''type'' (PStr ''?'')) @
                    '']: now='' @ py_str env (dict_get_default d ''now'' PNone) @
                    ''; members='' @ join '', '' ms)]\<rparr>))
       \<and> (\<forall>c g n st0 st1.
             nodes_from_group env c g st0 = (Inr (PList (map PStr ms)), st1) \<and>
             n \<notin> set ms \<and> set_iter_ok env \<longrightarrow>
               (\<exists>ls. distinct ls \<and> set ls = set ms \<and>
                  cmd_switch env c g n True st0 =
                    (Inl (SystemExit 1),
                     st1\<lparr>trace := trace st1 @
                       [Stdout (msg_node @ n @ msg_not_in_group @ g @ msg_members @
                          join '', '' ls)]\<rparr>)))"
proof -
  have a: "print_groups env [(name, PDict d)] st =
      (Inr (), st\<lparr>trace := trace st @
         [Stdout (name @ '' ['' @ py_str env (dict_get_default d ''type'' (PStr ''?'')) @
            '']: now='' @ py_str env (dict_get_default d ''now'' PNone) @
            ''; members='' @ join '', '' ms)]\<rparr>)"
    if "is_selector (PDict d) = Inr True"
    using that group_line_members [OF assms, of env name] by (simp add: emit_def)
  have b: "\<exists>ls. distinct ls \<and> set ls = set ms \<and>
      cmd_switch env c g n True st0 =
        (Inl (SystemExit 1),
         st1\<lparr>trace := trace st1 @
           [Stdout (msg_node @ n @ msg_not_in_group @ g @ msg_members @ join '', '' ls)]\<rparr>)"
    if "nodes_from_group env c g st0 = (Inr (PList (map PStr ms)), st1)"
      and "n \<notin> set ms" and "set_iter_ok env" for c g n st0 st1
  proof -
    from set_iter_strs [OF that(3), of ms] obtain ls
      where ls: "set_iter env (map PStr ms) = map PStr ls" "distinct ls" "set ls = set ms"
      by blast
    from switch_reject [OF that(1,2) ls(1)] ls(2,3) show ?thesis by blast
  qed
  show ?thesis
    using group_line_members [OF assms, of env name] a b by blast
qed

theorem member_order_witness:
  "group_line (ex_env Map.empty remdups ex_daemon) ''Proxy'' ex_group =
     Inr ''Proxy [Selector]: now=a; members=a, b''
   \<and> print_groups (ex_env Map.empty remdups ex_daemon) [(''Proxy'', ex_group)] ex_state =
     (Inr (), ex_state\<lparr>trace := [Stdout ''Proxy [Selector]: now=a; members=a, b'']\<rparr>)
   \<and> (\<exists>ls. distinct ls \<and> set ls = {''a'', ''b''} \<and>
         cmd_switch (ex_env Map.empty remdups ex_daemon) ex_client ''Proxy'' ''c'' True ex_state =
           (Inl (SystemExit 1),
            ex_state\<lparr>trace :=
              [Sent (proxy_request ex_client ''Proxy''),
               Stdout (msg_node @ ''c'' @ msg_not_in_group @ ''Proxy'' @ msg_members @
                 join '', '' ls)]\<rparr>))"
proof -
  let ?E = "ex_env Map.empty remdups ex_daemon"
  let ?d = "[(''type'', PStr ''Selector''), (''now'', PStr ''a''),
     (''all'', PList [PStr ''a'', PStr ''b''])]"
  let ?st1 = "ex_state\<lparr>trace := [Sent (proxy_request ex_client ''Proxy'')]\<rparr>"
  have al: "dict_get_default ?d ''all'' (PList []) = PList (map PStr [''a'', ''b''])"
    by (simp add: dict_get_default_def)
  have u: "urlopen ?E (net ex_state) (proxy_request ex_client ''Proxy'') =
      (Inr (Some ex_group), ())"
    by (simp add: daemon_defs)
  have b: "(case Some ex_group of None \<Rightarrow> PDict [] | Some v \<Rightarrow> v) = PDict ?d"
    by (simp add: ex_group_def)
  have g: "is_selector (PDict ?d) = Inr True"
    using ex_group_is_selector by (simp add: ex_group_def)
  have e: "ex_state\<lparr>net := (), trace := evs\<rparr> = ex_state\<lparr>trace := evs\<rparr>" for evs
    by (simp add: ex_state_def)
  have t: "trace ex_state = []"
    by (simp add: ex_state_def)
  have n: "nodes_from_group ?E ex_client ''Proxy'' ex_state =
      (Inr (PList (map PStr [''a'', ''b''])), ?st1)"
    using nodes_from_group_members [OF u b g] by (simp add: dict_get_default_def e t)
  have pre: "nodes_from_group ?E ex_client ''Proxy'' ex_state =
        (Inr (PList (map PStr [''a'', ''b''])), ?st1) \<and>
      ''c'' \<notin> set [''a'', ''b''] \<and> set_iter_ok ?E"
    using n remdups_ok [of Map.empty ex_daemon] by simp
  note mo = member_order [OF al, of ?E "''Proxy''" ex_state]
  have l: "group_line ?E ''Proxy'' ex_group = Inr ''Proxy [Selector]: now=a; members=a, b''"
    using mo [THEN conjunct1] by (simp add: ex_group_def dict_get_default_def)
  have p: "print_groups ?E [(''Proxy'', ex_group)] ex_state =
     (Inr (), ex_state\<lparr>trace := [Stdout ''Proxy [Selector]: now=a; members=a, b'']\<rparr>)"
    using mo [THEN conjunct2, THEN conjunct1, THEN mp, OF g]
    by (simp add: ex_group_def dict_get_default_def t)
  have r: "\<exists>ls. distinct ls \<and> set ls = set [''a'', ''b''] \<and>
         cmd_switch ?E ex_client ''Proxy'' ''c'' True ex_state =
           (Inl (SystemExit 1),
            ?st1\<lparr>trace := trace ?st1 @
              [Stdout (msg_node @ ''c'' @ msg_not_in_group @ ''Proxy'' @ msg_members @
                 join '', '' ls)]\<rparr>)"
    using mo [THEN conjunct2, THEN conjunct2, rule_format, OF pre] .
  from l p r show ?thesis by simp
qed

text \<open>
  The claim as it is written fails for that message. A set of strings is iterated in the
  order of their hashes, which are salted per process, so a run in which the set of the
  members \<open>a\<close>, \<open>b\<close> is iterated as \<open>b\<close>, \<open>a\<close> is a run of the program: it lists
  \<open>b, a\<close>, while the daemon answered \<open>a\<close>, \<open>b\<close>.
\<close>

theorem member_order_counterexample:
  "set_iter_ok (ex_env Map.empty ex_rev_order ex_daemon)
   \<and> nodes_from_group (ex_env Map.empty ex_rev_order ex_daemon) ex_client ''Proxy'' ex_state =
       (Inr (PList [PStr ''a'', PStr ''b'']),
        ex_state\<lparr>trace := [Sent (proxy_request ex_client ''Proxy'')]\<rparr>)
   \<and> main (ex_env Map.empty ex_rev_order ex_daemon)
        (ex_args None None (CmdSwitch ''Proxy'' ''c'' True)) ex_state =
       (Inl (SystemExit 1),
        ex_state\<lparr>trace :=
          [Sent (proxy_request ex_client ''Proxy''),
           Stdout (msg_node @ ''c'' @ msg_not_in_group @ ''Proxy'' @ msg_members @ ''b, a'')]\<rparr>)
   \<and> ''b, a'' \<noteq> join '', '' [''a'', ''b'']"
proof -
  let ?E = "ex_env Map.empty ex_rev_order ex_daemon"
  let ?d = "[(''type'', PStr ''Selector''), (''now'', PStr ''a''),
     (''all'', PList [PStr ''a'', PStr ''b''])]"
  have ok: "set_iter_ok ?E"
    by (simp add: set_iter_ok_def ex_env_def ex_rev_order_def)
  have u: "urlopen ?E (net ex_state) (proxy_request ex_client ''Proxy'') =
      (Inr (Some ex_group), ())"
    by (simp add: daemon_defs)
  have b: "(case Some ex_group of None \<Rightarrow> PDict [] | Some v \<Rightarrow> v) = PDict ?d"
    by (simp add: ex_group_def)
  have g: "is_selector (PDict ?d) = Inr True"
    using ex_group_is_selector by (simp add: ex_group_def)
  have e: "ex_state\<lparr>net := (), trace := evs\<rparr> = ex_state\<lparr>trace := evs\<rparr>" for evs
    by (simp add: ex_state_def)
  have t: "trace ex_state = []"
    by (simp add: ex_state_def)
  have n: "nodes_from_group ?E ex_client ''Proxy'' ex_state =
      (Inr (PList (map PStr [''a'', ''b''])),
       ex_state\<lparr>trace := [Sent (proxy_request ex_client ''Proxy'')]\<rparr>)"
    using nodes_from_group_members [OF u b g] by (simp add: dict_get_default_def e t)
  have it: "set_iter ?E (map PStr [''a'', ''b'']) = map PStr [''b'', ''a'']"
    by (simp add: ex_env_def ex_rev_order_def)
  have nc: "''c'' \<notin> set [''a'', ''b'']"
    by simp
  have m: "main ?E (ex_args None None (CmdSwitch ''Proxy'' ''c'' True)) ex_state =
      cmd_switch ?E ex_client ''Proxy'' ''c'' True ex_state"
    using main_switch [of "ex_args None None (CmdSwitch ''Proxy'' ''c'' True)" "''Proxy''" "''c''"
        True ?E ex_state "[]" ex_state]
      ex_load_nothing [of Map.empty ex_rev_order ex_daemon None None "CmdSwitch ''Proxy'' ''c'' True"]
      ex_default_client [of ex_rev_order ex_daemon "CmdSwitch ''Proxy'' ''c'' True"]
    by (simp add: ex_args_def)
  have r: "main ?E (ex_args None None (CmdSwitch ''Proxy'' ''c'' True)) ex_state =
       (Inl (SystemExit 1),
        ex_state\<lparr>trace :=
          [Sent (proxy_request ex_client ''Proxy''),
           Stdout (msg_node @ ''c'' @ msg_not_in_group @ ''Proxy'' @ msg_members @ ''b, a'')]\<rparr>)"
    unfolding m using switch_reject [OF n nc it] by simp
  from ok n r show ?thesis by simp
qed

subsection \<open>Groups and nodes of a snapshot\<close>

lemma in_group_types_True:
  "in_group_types v = Inr True \<longleftrightarrow>
     (\<exists>s. v = PStr s \<and> s \<in> {''Selector'', ''URLTest'', ''Fallback'', ''LoadBalance''})"
  by (cases v) (auto simp: group_types_def)

lemma is_selector_True:
  "is_selector e = Inr True \<longleftrightarrow>
     (\<exists>d s. e = PDict d \<and> dict_get d ''type'' = Some (PStr s) \<and>
        s \<in> {''Selector'', ''URLTest'', ''Fallback'', ''LoadBalance''})"
proof (cases e)
  case (PDict d)
  show ?thesis
  proof (cases "map_of d ''type''")
    case None
    with PDict show ?thesis
      by (simp add: is_selector_def bindE_def dict_get_default_def dict_get_def)
  next
    case (Some v)
    with PDict show ?thesis
      using in_group_types_True [of v]
      by (simp add: is_selector_def bindE_def dict_get_default_def dict_get_def)
  qed
qed (simp_all add: is_selector_def bindE_def)

lemma print_groups_ok:
  assumes "print_groups env items st = (Inr (), st')"
  shows "st' = st\<lparr>trace := trace st @
             map (\<lambda>(n, i). Stdout (projr (group_line env n i)))
               (filter (\<lambda>(n, i). is_selector i = Inr True) items)\<rparr>
         \<and> (\<forall>e \<in> set items. is_selector (snd e) = Inr True \<or> is_selector (snd e) = Inr False)"
  using assms
proof (induction items arbitrary: st)
  case Nil
  then show ?case by simp
next
  case (Cons e items)
  obtain name info where e: "e = (name, info)" by (cases e)
  show ?case
  proof (cases "is_selector info")
    case (Inl x)
    with Cons.prems e show ?thesis by simp
  next
    case (Inr b)
    show ?thesis
    proof (cases b)
      case False
      with Inr Cons.prems e have "print_groups env items st = (Inr (), st')" by simp
      from Cons.IH [OF this] Inr False e show ?thesis by simp
    next
      case True
      show ?thesis
      proof (cases "group_line env name info")
        case (Inl x)
        with Inr True Cons.prems e show ?thesis by simp
      next
        case l: (Inr l)
        with Inr True Cons.prems e
        have "print_groups env items (emit (Stdout l) st) = (Inr (), st')" by simp
        from Cons.IH [OF this] Inr True e l show ?thesis by (simp add: emit_def)
      qed
    qed
  qed
qed

lemma print_nodes_ok:
  assumes "print_nodes env items st = (Inr (), st')"
  shows "st' = st\<lparr>trace := trace st @
             map (\<lambda>(n, i). Stdout (projr (node_line env n i)))
               (filter (\<lambda>(n, i). is_selector i = Inr False) items)\<rparr>"
  using assms
proof (induction items arbitrary: st)
  case Nil
  then show ?case by simp
next
  case (Cons e items)
  obtain name info where e: "e = (name, info)" by (cases e)
  show ?case
  proof (cases "is_selector info")
    case (Inl x)
    with Cons.prems e show ?thesis by simp
  next
    case (Inr b)
    show ?thesis
    proof (cases b)
      case True
      with Inr Cons.prems e have "print_nodes env items st = (Inr (), st')" by simp
      from Cons.IH [OF this] Inr True e show ?thesis by simp
    next
      case False
      show ?thesis
      proof (cases "node_line env name info")
        case (Inl x)
        with Inr False Cons.prems e show ?thesis by simp
      next
        case l: (Inr l)
        with Inr False Cons.prems e
        have "print_nodes env items (emit (Stdout l) st) = (Inr (), st')" by simp
        from Cons.IH [OF this] Inr False e l show ?thesis by (simp add: emit_def)
      qed
    qed
  qed
qed

lemma partition_filters:
  assumes "\<forall>e \<in> set items. is_selector (snd e) = Inr True \<or> is_selector (snd e) = Inr False"
  shows "set (filter (\<lambda>(n, i). is_selector i = Inr True) items) \<inter>
           set (filter (\<lambda>(n, i). is_selector i = Inr False) items) = {}
       \<and> set (filter (\<lambda>(n, i). is_selector i = Inr True) items) \<union>
           set (filter (\<lambda>(n, i). is_selector i = Inr False) items) = set items
       \<and> length (filter (\<lambda>(n, i). is_selector i = Inr True) items) +
           length (filter (\<lambda>(n, i). is_selector i = Inr False) items) = length items"
proof -
  have "filter (\<lambda>(n, i). is_selector i = Inr False) items =
      filter (\<lambda>e. \<not> (case e of (n, i) \<Rightarrow> is_selector i = Inr True)) items"
    using assms by (intro filter_cong) auto
  then show ?thesis
    using assms sum_length_filter_compl [of "\<lambda>(n, i). is_selector i = Inr True" items]
    by auto
qed

text \<open>
  Claim C5. \<open>is_selector\<close> holds of an entry exactly when its \<open>type\<close> is one of
  \<open>Selector\<close>, \<open>URLTest\<close>, \<open>Fallback\<close>, \<open>LoadBalance\<close>. When \<open>list\<close> prints a snapshot
  completely, the entries of its group section are those of which \<open>is_selector\<close> holds
  and the entries of its node section those of which it does not, each section in the
  order of the snapshot: the two sections share no entry and together they are the
  snapshot.
\<close>

theorem group_classification:
  "(is_selector e = Inr True \<longleftrightarrow>
      (\<exists>d s. e = PDict d \<and> dict_get d ''type'' = Some (PStr s) \<and>
         s \<in> {''Selector'', ''URLTest'', ''Fallback'', ''LoadBalance''}))
   \<and> (proxies env c st = (Inr (PDict items), st1) \<and>
       list_proxies env c True True st = (Inr (), st') \<longrightarrow>
         st' = st1\<lparr>trace := trace st1 @
             Stdout ''=== Policy Groups ==='' #
             map (\<lambda>(n, i). Stdout (projr (group_line env n i)))
               (filter (\<lambda>(n, i). is_selector i = Inr True) items) @
             Stdout ''=== Endpoint Nodes ==='' #
             map (\<lambda>(n, i). Stdout (projr (node_line env n i)))
               (filter (\<lambda>(n, i). is_selector i = Inr False) items)\<rparr> \<and>
         set (filter (\<lambda>(n, i). is_selector i = Inr True) items) \<inter>
           set (filter (\<lambda>(n, i). is_selector i = Inr False) items) = {} \<and>
         set (filter (\<lambda>(n, i). is_selector i = Inr True) items) \<union>
           set (filter (\<lambda>(n, i). is_selector i = Inr False) items) = set items \<and>
         length (filter (\<lambda>(n, i). is_selector i = Inr True) items) +
           length (filter (\<lambda>(n, i). is_selector i = Inr False) items) = length items)"
proof -
  have part: "st' = st1\<lparr>trace := trace st1 @
             Stdout ''=== Policy Groups ==='' #
             map (\<lambda>(n, i). Stdout (projr (group_line env n i)))
               (filter (\<lambda>(n, i). is_selector i = Inr True) items) @
             Stdout ''=== Endpoint Nodes ==='' #
             map (\<lambda>(n, i). Stdout (projr (node_line env n i)))
               (filter (\<lambda>(n, i). is_selector i = Inr False) items)\<rparr> \<and>
         set (filter (\<lambda>(n, i). is_selector i = Inr True) items) \<inter>
           set (filter (\<lambda>(n, i). is_selector i = Inr False) items) = {} \<and>
         set (filter (\<lambda>(n, i). is_selector i = Inr True) items) \<union>
           set (filter (\<lambda>(n, i). is_selector i = Inr False) items) = set items \<and>
         length (filter (\<lambda>(n, i). is_selector i = Inr True) items) +
           length (filter (\<lambda>(n, i). is_selector i = Inr False) items) = length items"
    if p: "proxies env c st = (Inr (PDict items), st1)"
      and l: "list_proxies env c True True st = (Inr (), st')"
  proof -
    let ?st2 = "emit (Stdout ''=== Policy Groups ==='') st1"
    obtain r st3 where g: "print_groups env items ?st2 = (r, st3)"
      by (cases "print_groups env items ?st2")
    from l p g have r: "r = Inr ()"
      by (cases r) (simp_all add: list_proxies_def Let_def)
    let ?st4 = "emit (Stdout ''=== Endpoint Nodes ==='') st3"
    from l p g r have n: "print_nodes env items ?st4 = (Inr (), st')"
      by (simp add: list_proxies_def Let_def)
    from print_groups_ok [OF g [unfolded r]] print_nodes_ok [OF n] partition_filters [of items]
    show ?thesis
      by (simp add: emit_def)
  qed
  show ?thesis
    using is_selector_True [of e] part by blast
qed

lemma ex_node_is_selector: "is_selector ex_node = Inr False"
  by (simp add: is_selector_def ex_node_def bindE_def dict_get_default_def group_types_def)

theorem group_classification_witness:
  "is_selector ex_group = Inr True
   \<and> list_proxies (ex_env Map.empty remdups ex_daemon) ex_client True True ex_state =
     (Inr (), ex_state\<lparr>trace :=
        [Sent (proxies_request ex_client),
         Stdout ''=== Policy Groups ==='',
         Stdout ''Proxy [Selector]: now=a; members=a, b'',
         Stdout ''=== Endpoint Nodes ==='',
         Stdout ''a [Shadowsocks], udp=True'',
         Stdout ''b [Shadowsocks], udp=True'']\<rparr>)
   \<and> filter (\<lambda>(n, i). is_selector i = Inr True) ex_items = [(''Proxy'', ex_group)]
   \<and> filter (\<lambda>(n, i). is_selector i = Inr False) ex_items = [(''a'', ex_node), (''b'', ex_node)]"
proof -
  let ?E = "ex_env Map.empty remdups ex_daemon"
  let ?st1 = "ex_state\<lparr>trace := [Sent (proxies_request ex_client)]\<rparr>"
  have fg: "filter (\<lambda>(n, i). is_selector i = Inr True) ex_items = [(''Proxy'', ex_group)]"
    by (simp add: ex_items_def ex_group_is_selector ex_node_is_selector)
  have fn: "filter (\<lambda>(n, i). is_selector i = Inr False) ex_items =
      [(''a'', ex_node), (''b'', ex_node)]"
    by (simp add: ex_items_def ex_group_is_selector ex_node_is_selector)
  have gl: "group_line ?E ''Proxy'' ex_group = Inr ''Proxy [Selector]: now=a; members=a, b''"
    using group_line_members [of "[(''type'', PStr ''Selector''), (''now'', PStr ''a''),
        (''all'', PList [PStr ''a'', PStr ''b''])]" "[''a'', ''b'']" ?E "''Proxy''"]
    by (simp add: ex_group_def dict_get_default_def)
  have nl: "node_line ?E n ex_node = Inr (n @ '' [Shadowsocks], udp=True'')" for n
    by (simp add: node_line_def ex_node_def bindE_def dict_get_default_def)
  have p: "proxies ?E ex_client ex_state = (Inr (PDict ex_items), ?st1)"
    by (simp add: proxies_def request_def proxies_request_def Let_def emit_def daemon_defs
        dict_get_default_def ex_items_def)
  have pg: "print_groups ?E ex_items st = (Inr (), emit (Stdout ''Proxy [Selector]: now=a; members=a, b'') st)"
    for st :: "unit state"
    by (simp add: ex_items_def ex_group_is_selector ex_node_is_selector gl)
  have pn: "print_nodes ?E ex_items st =
      (Inr (), emit (Stdout ''b [Shadowsocks], udp=True'')
                 (emit (Stdout ''a [Shadowsocks], udp=True'') st))"
    for st :: "unit state"
    by (simp add: ex_items_def ex_group_is_selector ex_node_is_selector nl)
  obtain st' where l: "list_proxies ?E ex_client True True ex_state = (Inr (), st')"
    by (simp add: list_proxies_def p pg pn Let_def)
  have pre: "proxies ?E ex_client ex_state = (Inr (PDict ex_items), ?st1) \<and>
      list_proxies ?E ex_client True True ex_state = (Inr (), st')"
    using p l by simp
  from group_classification [of ex_group ?E ex_client ex_state ex_items ?st1 st',
      THEN conjunct2, THEN mp, OF pre, THEN conjunct1]
  have "st' = ex_state\<lparr>trace :=
        [Sent (proxies_request ex_client),
         Stdout ''=== Policy Groups ==='',
         Stdout ''Proxy [Selector]: now=a; members=a, b'',
         Stdout ''=== Endpoint Nodes ==='',
         Stdout ''a [Shadowsocks], udp=True'',
         Stdout ''b [Shadowsocks], udp=True'']\<rparr>"
    by (simp add: fg fn gl nl)
  with l fg fn ex_group_is_selector show ?thesis by simp
qed

end
